theory Spec2Isabelle
  imports Complex_Main
begin

section \<open>Strings and numbers of the host language\<close>

text \<open>
  A text is a \<^typ>\<open>string\<close>; a character is read as the code point of the same number
  (U+0000 to U+00FF). \<open>toLowerCase\<close> lowers the ASCII letters and the upper-case letters of
  the Latin-1 block, \<open>\w\<close> is \<open>[A-Za-z0-9_]\<close> and \<open>\s\<close> is tab, line feed, vertical tab,
  form feed, carriage return, space and the no-break space.
\<close>

definition toLowerChar :: "char \<Rightarrow> char" where
  "toLowerChar c =
     (let n = (of_char c :: nat)
      in if (65 \<le> n \<and> n \<le> 90) \<or> (192 \<le> n \<and> n \<le> 222 \<and> n \<noteq> 215)
         then char_of (n + 32) else c)"

definition toLowerCase :: "string \<Rightarrow> string" where
  "toLowerCase s = map toLowerChar s"

definition isWordChar :: "char \<Rightarrow> bool" where
  "isWordChar c =
     (let n = (of_char c :: nat)
      in (48 \<le> n \<and> n \<le> 57) \<or> (65 \<le> n \<and> n \<le> 90) \<or> n = 95 \<or> (97 \<le> n \<and> n \<le> 122))"

definition isSpaceChar :: "char \<Rightarrow> bool" where
  "isSpaceChar c =
     (let n = (of_char c :: nat)
      in (9 \<le> n \<and> n \<le> 13) \<or> n = 32 \<or> n = 160)"

text \<open>\<open>s.replace(/[^\w\s]/g, '')\<close>: every character that is neither a word character nor
  white space is deleted.\<close>

definition stripNonWord :: "string \<Rightarrow> string" where
  "stripNonWord s = filter (\<lambda>c. isWordChar c \<or> isSpaceChar c) s"

text \<open>\<open>s.split(/\s+/)\<close>: the pieces between the maximal runs of white space. A text that
  starts (ends) with white space has an empty first (last) piece, and the empty text has the one
  piece \<open>''''\<close>.\<close>

function splitWs :: "string \<Rightarrow> string list" where
  "splitWs s =
     (let tok = takeWhile (\<lambda>c. \<not> isSpaceChar c) s;
          rest = dropWhile (\<lambda>c. \<not> isSpaceChar c) s
      in if rest = [] then [tok] else tok # splitWs (dropWhile isSpaceChar rest))"
  by pat_completeness auto
termination
proof (relation "measure length")
  show "wf (measure length)" by simp
next
  fix s :: string and tok rest :: string
  assume r: "rest = dropWhile (\<lambda>c. \<not> isSpaceChar c) s" and ne: "rest \<noteq> []"
  from ne obtain c cs where rc: "rest = c # cs" by (cases rest) auto
  have "dropWhile (\<lambda>c. \<not> isSpaceChar c) s = c # cs"
    using r rc by simp
  then have sp: "isSpaceChar c"
    by (simp add: dropWhile_eq_Cons_conv)
  have "length (dropWhile isSpaceChar rest) \<le> length cs"
    using rc sp by (simp add: length_dropWhile_le)
  also have "length cs < length rest" using rc by simp
  also have "length rest \<le> length s" using r by (simp add: length_dropWhile_le)
  finally show "(dropWhile isSpaceChar rest, s) \<in> measure length" by simp
qed

declare splitWs.simps [simp del]

text \<open>\<open>xs.join(sep)\<close>.\<close>

fun join :: "string \<Rightarrow> string list \<Rightarrow> string" where
  "join sep [] = []"
| "join sep [x] = x"
| "join sep (x # y # ys) = x @ sep @ join sep (y # ys)"

text \<open>\<open>[...new Set(words)]\<close>: a set keeps the order of first insertion, so each word stays at
  its first occurrence. \<open>seen\<close> is the set built so far.\<close>

fun uniqueFrom :: "'a list \<Rightarrow> 'a list \<Rightarrow> 'a list" where
  "uniqueFrom seen [] = []"
| "uniqueFrom seen (x # xs) =
     (if x \<in> set seen then uniqueFrom seen xs else x # uniqueFrom (x # seen) xs)"

definition unique :: "'a list \<Rightarrow> 'a list" where
  "unique xs = uniqueFrom [] xs"

section \<open>Keyword extractor\<close>

text \<open>The stop-word list, as the source writes it (with its repetitions).\<close>

definition stopWords :: "string list" where
  "stopWords =
     [''this'', ''that'', ''with'', ''from'', ''they'', ''have'', ''been'', ''said'', ''each'',
      ''which'', ''their'', ''time'', ''will'', ''about'', ''after'', ''many'', ''only'',
      ''some'', ''also'', ''what'', ''when'', ''make'', ''like'', ''into'', ''than'', ''call'',
      ''come'', ''could'', ''first'', ''work'', ''down'', ''may'', ''should'', ''through'',
      ''between'', ''must'', ''such'', ''under'', ''well'', ''where'', ''much'', ''before'',
      ''right'', ''too'', ''any'', ''same'', ''how'', ''look'', ''little'', ''world'', ''very'',
      ''still'', ''hand'', ''old'', ''life'', ''tell'', ''here'', ''show'', ''even'', ''back'',
      ''think'', ''year'', ''give'', ''take'', ''just'', ''good'', ''most'', ''know'', ''over'',
      ''great'', ''long'', ''find'', ''where'', ''much'', ''before'', ''right'', ''too'',
      ''any'', ''same'']"

definition extractKeywords :: "string \<Rightarrow> string list" where
  "extractKeywords text =
     unique
       (filter (\<lambda>word. word \<notin> set stopWords)
         (filter (\<lambda>word. length word > 3)
           (splitWs (stripNonWord (toLowerCase text)))))"

section \<open>Numbers\<close>

text \<open>
  A stored rating average is a finite number and is kept as an exact rational; the rounding of
  the host's double-precision arithmetic is not part of the model, so the statements below are
  about one update step and about bounds, never about an average accumulated over several
  steps being equal to a value computed another way. A computed score is a
  \<open>number\<close>: a finite value, \<open>NaN\<close> (the quotient \<open>0 / 0\<close>) or \<open>Infinity\<close> (a positive count
  divided by \<open>0\<close>).
\<close>

datatype number = Num rat | NaN | Infinity

text \<open>\<open>a / b\<close> for two list lengths.\<close>

definition divideCounts :: "nat \<Rightarrow> nat \<Rightarrow> number" where
  "divideCounts a b =
     (if b \<noteq> 0 then Num (of_nat a / of_nat b) else if a = 0 then NaN else Infinity)"

text \<open>\<open>x * c\<close> for a positive finite constant \<open>c\<close>, and \<open>x + y\<close>.\<close>

fun timesConst :: "number \<Rightarrow> rat \<Rightarrow> number" where
  "timesConst (Num x) c = Num (x * c)"
| "timesConst NaN c = NaN"
| "timesConst Infinity c = Infinity"

fun plusNumber :: "number \<Rightarrow> number \<Rightarrow> number" where
  "plusNumber (Num x) (Num y) = Num (x + y)"
| "plusNumber NaN y = NaN"
| "plusNumber x NaN = NaN"
| "plusNumber Infinity y = Infinity"
| "plusNumber x Infinity = Infinity"

text \<open>\<open>x > c\<close>, false when \<open>x\<close> is \<open>NaN\<close>.\<close>

fun greaterThan :: "number \<Rightarrow> rat \<Rightarrow> bool" where
  "greaterThan (Num x) c = (x > c)"
| "greaterThan NaN c = False"
| "greaterThan Infinity c = True"

text \<open>\<open>b - a > 0\<close>: the comparator of the descending sort puts \<open>b\<close> before \<open>a\<close>. A difference
  that is \<open>NaN\<close> counts as \<open>0\<close>.\<close>

fun differencePositive :: "number \<Rightarrow> number \<Rightarrow> bool" where
  "differencePositive (Num b) (Num a) = (b - a > 0)"
| "differencePositive Infinity (Num a) = True"
| "differencePositive b a = False"

text \<open>\<open>xs.sort(compare)\<close> is stable. \<open>precedes y x\<close> says that the comparator puts \<open>y\<close> strictly
  before \<open>x\<close>; elements that compare equal keep their order.\<close>

fun insertBy :: "('a \<Rightarrow> 'a \<Rightarrow> bool) \<Rightarrow> 'a \<Rightarrow> 'a list \<Rightarrow> 'a list" where
  "insertBy precedes x [] = [x]"
| "insertBy precedes x (y # ys) =
     (if precedes y x then y # insertBy precedes x ys else x # y # ys)"

definition stableSortBy :: "('a \<Rightarrow> 'a \<Rightarrow> bool) \<Rightarrow> 'a list \<Rightarrow> 'a list" where
  "stableSortBy precedes xs = foldr (insertBy precedes) xs []"

text \<open>\<open>xs.slice(0, end)\<close> for an integer \<open>endIndex\<close>: a negative one counts from the end of the
  list.\<close>

definition slice0 :: "'a list \<Rightarrow> int \<Rightarrow> 'a list" where
  "slice0 xs endIndex =
     (if endIndex < 0 then take (nat (int (length xs) + endIndex)) xs
      else take (nat endIndex) xs)"

section \<open>Data model\<close>

text \<open>
  A table is the list of its rows in insertion order, and the identifier of a row is its
  position in the list: rows are created at the end and never deleted, so an identifier names
  one row for ever. A lookup by an identifier that is not in the table finds nothing.
\<close>

record KnowledgeEntry =
  content :: string
  contentType :: string
  averageRating :: rat
  usageCount :: nat

record Issue =
  title :: string
  description :: string
  category :: string
  severity :: string
  environment :: string
  systemAffected :: string
  status :: string
  resolvedAt :: "int option"

record AiResolution =
  issueId :: nat
  resolutionText :: string
  modelUsed :: string
  generatedAt :: int
  userRating :: "int option"
  userFeedback :: "string option"

record AiSop =
  sopIssueId :: nat
  sopText :: string
  sopGeneratedAt :: int

record AiRating =
  userId :: string
  targetType :: string
  targetId :: nat
  rating :: int
  feedback :: "string option"

record db =
  issues :: "Issue list"
  aiResolutions :: "AiResolution list"
  aiSops :: "AiSop list"
  knowledgeBase :: "KnowledgeEntry list"
  aiRatings :: "AiRating list"

text \<open>An error response: the HTTP status and the message.\<close>

datatype error = Error nat string

text \<open>A retrieved entry: the row, its identifier, and what the scorer adds.\<close>

record RetrievalResult =
  entryId :: nat
  entry :: KnowledgeEntry
  similarityScore :: number
  matchedKeywords :: "string list"

section \<open>Relevance scorer and knowledge retriever\<close>

text \<open>\<open>db.knowledgeBase.findMany\<close> with the quality floor, ordered by \<open>averageRating\<close> and then
  \<open>usageCount\<close>, both descending, and cut to \<open>n\<close> rows. Rows that agree on both keep their
  table order.\<close>

definition orderedBefore :: "nat \<times> KnowledgeEntry \<Rightarrow> nat \<times> KnowledgeEntry \<Rightarrow> bool" where
  "orderedBefore y x =
     (averageRating (snd y) > averageRating (snd x) \<or>
      (averageRating (snd y) = averageRating (snd x) \<and> usageCount (snd y) > usageCount (snd x)))"

definition findManyKnowledge ::
  "KnowledgeEntry list \<Rightarrow> string \<Rightarrow> nat \<Rightarrow> (nat \<times> KnowledgeEntry) list" where
  "findManyKnowledge kb ct n =
     take n (stableSortBy orderedBefore
       (filter (\<lambda>row. contentType (snd row) = ct \<and> averageRating (snd row) \<ge> 3.5)
         (enumerate 0 kb)))"

text \<open>The body of \<open>knowledgeBase.map(entry => ...)\<close>; the two routes that retrieve have the same
  text here.\<close>

definition keywordSimilarity :: "string list \<Rightarrow> string list \<Rightarrow> string list \<Rightarrow> number" where
  "keywordSimilarity commonKeywords queryKeywords contentKeywords =
     divideCounts (length commonKeywords) (max (length queryKeywords) (length contentKeywords))"

definition finalScore :: "string list \<Rightarrow> KnowledgeEntry \<Rightarrow> number" where
  "finalScore queryKeywords e =
     (let contentKeywords = extractKeywords (content e);
          commonKeywords = filter (\<lambda>keyword. keyword \<in> set contentKeywords) queryKeywords;
          ratingBoost = averageRating e / 5;
          usageBoost = min (of_nat (usageCount e) / 10) 1
      in plusNumber
           (plusNumber (timesConst (keywordSimilarity commonKeywords queryKeywords contentKeywords) 0.6)
                       (Num (ratingBoost * 0.3)))
           (Num (usageBoost * 0.1)))"

definition scoreEntry :: "string list \<Rightarrow> nat \<times> KnowledgeEntry \<Rightarrow> RetrievalResult" where
  "scoreEntry queryKeywords row =
     \<lparr>entryId = fst row, entry = snd row,
      similarityScore = finalScore queryKeywords (snd row),
      matchedKeywords =
        filter (\<lambda>keyword. keyword \<in> set (extractKeywords (content (snd row)))) queryKeywords\<rparr>"

definition rankEntries :: "RetrievalResult list \<Rightarrow> RetrievalResult list" where
  "rankEntries scoredEntries =
     stableSortBy (\<lambda>b a. differencePositive (similarityScore b) (similarityScore a))
       (filter (\<lambda>e. greaterThan (similarityScore e) 0.1) scoredEntries)"

text \<open>\<open>update ... usageCount: {increment: 1}\<close> for every retrieved entry.\<close>

definition incrementUsage :: "KnowledgeEntry list \<Rightarrow> nat \<Rightarrow> KnowledgeEntry list" where
  "incrementUsage kb i =
     (if i < length kb then kb[i := (kb ! i)\<lparr>usageCount := usageCount (kb ! i) + 1\<rparr>] else kb)"

definition incrementUsages :: "KnowledgeEntry list \<Rightarrow> RetrievalResult list \<Rightarrow> KnowledgeEntry list" where
  "incrementUsages kb entries = foldl incrementUsage kb (map entryId entries)"

text \<open>The retrieval route. \<open>query\<close> is empty when the body has none; \<open>contentType\<close> and \<open>limit\<close>
  have defaults. The route also looks up related issues for its response, which reads the store
  only and is left out; the response here is \<open>relevantEntries\<close> with the unrounded score.\<close>

definition retrieve :: "KnowledgeEntry list \<Rightarrow> string \<Rightarrow> string \<Rightarrow> int \<Rightarrow> RetrievalResult list" where
  "retrieve kb query ct limit =
     slice0 (rankEntries (map (scoreEntry (extractKeywords query)) (findManyKnowledge kb ct 50))) limit"

definition retrieve_POST ::
  "db \<Rightarrow> string \<Rightarrow> string option \<Rightarrow> int option \<Rightarrow> (error + RetrievalResult list) \<times> db" where
  "retrieve_POST s query contentTypeOpt limitOpt =
     (if query = [] then (Inl (Error 400 ''Query is required''), s)
      else
        let ct = (case contentTypeOpt of None \<Rightarrow> ''resolution'' | Some c \<Rightarrow> c);
            limit = (case limitOpt of None \<Rightarrow> 5 | Some l \<Rightarrow> l);
            relevantEntries = retrieve (knowledgeBase s) query ct limit
        in (Inr relevantEntries,
            s\<lparr>knowledgeBase := incrementUsages (knowledgeBase s) relevantEntries\<rparr>))"

text \<open>The retrieval inside resolution generation: resolutions only, a pool of 20, the best 3.\<close>

definition retrieveRelevantContent :: "KnowledgeEntry list \<Rightarrow> string \<Rightarrow> RetrievalResult list" where
  "retrieveRelevantContent kb query =
     slice0 (rankEntries (map (scoreEntry (extractKeywords query))
       (findManyKnowledge kb ''resolution'' 20))) 3"

section \<open>Knowledge promoter\<close>

text \<open>The block \<open>if (rating >= 4) { ... }\<close> of the rating route, for the rated text:
  \<open>findFirst\<close> by content and content type, then update or create.\<close>

definition createOrUpdateKbEntry :: "KnowledgeEntry list \<Rightarrow> string \<Rightarrow> int \<Rightarrow> KnowledgeEntry list" where
  "createOrUpdateKbEntry kb text r =
     (case List.find (\<lambda>row. content (snd row) = text \<and> contentType (snd row) = ''resolution'')
             (enumerate 0 kb) of
        Some (i, existingKbEntry) \<Rightarrow>
          kb[i := existingKbEntry
                 \<lparr>usageCount := usageCount existingKbEntry + 1,
                  averageRating :=
                    (averageRating existingKbEntry * of_nat (usageCount existingKbEntry) + of_int r)
                    / of_nat (usageCount existingKbEntry + 1)\<rparr>]
      | None \<Rightarrow>
          kb @ [\<lparr>content = text, contentType = ''resolution'',
                 averageRating = of_int r, usageCount = 1\<rparr>])"

text \<open>\<open>feedback || null\<close>.\<close>

definition orNull :: "string option \<Rightarrow> string option" where
  "orNull fb = (case fb of Some [] \<Rightarrow> None | _ \<Rightarrow> fb)"

text \<open>The rating route. A missing rating is \<open>0\<close>. Updating a resolution that does not exist
  throws, which the route answers with status 500.\<close>

definition rate_POST :: "db \<Rightarrow> nat \<Rightarrow> int \<Rightarrow> string option \<Rightarrow> (error + AiResolution) \<times> db" where
  "rate_POST s resolutionId r fb =
     (if r = 0 \<or> r < 1 \<or> r > 5 then (Inl (Error 400 ''Rating must be between 1 and 5''), s)
      else if \<not> resolutionId < length (aiResolutions s)
      then (Inl (Error 500 ''Failed to rate resolution''), s)
      else
        let updatedResolution =
              (aiResolutions s ! resolutionId)\<lparr>userRating := Some r, userFeedback := orNull fb\<rparr>;
            s1 = s\<lparr>aiResolutions := (aiResolutions s)[resolutionId := updatedResolution]\<rparr>;
            s2 = (if r \<ge> 4
                  then s1\<lparr>knowledgeBase :=
                          createOrUpdateKbEntry (knowledgeBase s1) (resolutionText updatedResolution) r\<rparr>
                  else s1);
            s3 = s2\<lparr>aiRatings := aiRatings s2 @
                    [\<lparr>userId = ''system-user'', targetType = ''resolution'',
                      targetId = resolutionId, rating = r, feedback = orNull fb\<rparr>]\<rparr>
        in (Inr updatedResolution, s3))"

section \<open>Fallback templates\<close>

text \<open>
  A value that a template function can return: a text, \<open>undefined\<close>, or an object that is not
  a text (a function or object of the host's \<open>Object.prototype\<close>).
\<close>

datatype jsvalue = Str string | Undefined | Object

text \<open>
  \<open>table[key]\<close> on an object literal finds the literal's own property, or else a property that
  every object inherits from \<open>Object.prototype\<close>, or else nothing.
\<close>

datatype 'a property = Own 'a | Inherited | Absent

definition objectPrototypeKeys :: "string list" where
  "objectPrototypeKeys =
     [''constructor'', ''__proto__'', ''hasOwnProperty'', ''isPrototypeOf'',
      ''propertyIsEnumerable'', ''toLocaleString'', ''toString'', ''valueOf'',
      ''__defineGetter__'', ''__defineSetter__'', ''__lookupGetter__'', ''__lookupSetter__'']"

definition getProperty :: "(string \<times> 'a) list \<Rightarrow> string \<Rightarrow> 'a property" where
  "getProperty table key =
     (case map_of table key of
        Some v \<Rightarrow> Own v
      | None \<Rightarrow> if key \<in> set objectPrototypeKeys then Inherited else Absent)"

text \<open>\<open>xs[i]\<close> for an integer \<open>i\<close>: \<open>undefined\<close> outside the list.\<close>

definition elementAt :: "string list \<Rightarrow> int \<Rightarrow> jsvalue" where
  "elementAt xs i = (if 0 \<le> i \<and> i < int (length xs) then Str (xs ! nat i) else Undefined)"

text \<open>A value inside a template literal.\<close>

fun display :: "jsvalue \<Rightarrow> string" where
  "display (Str t) = t"
| "display Undefined = ''undefined''"
| "display Object = ''[object Object]''"

subsection \<open>Resolution templates\<close>

definition infrastructureResolution :: "Issue \<Rightarrow> string" where
  \<open>infrastructureResolution issue = concat
     [''Infrastructure Issue Resolution Plan for "'', title issue, ''":\<newline>'',
      ''\<newline>'',
      ''1. INITIAL ASSESSMENT\<newline>'',
      ''   - Verify current system status and impact scope\<newline>'',
      ''   - Check monitoring dashboards for anomaly patterns\<newline>'',
      ''   - Document affected services and user impact\<newline>'',
      ''\<newline>'',
      ''2. IMMEDIATE ACTIONS\<newline>'',
      ''   - Implement temporary workaround if available\<newline>'',
      ''   - Communicate status to stakeholders\<newline>'',
      ''   - Begin root cause analysis\<newline>'',
      ''\<newline>'',
      ''3. ROOT CAUSE ANALYSIS\<newline>'',
      ''   - Review system logs for error patterns\<newline>'',
      ''   - Check recent changes or deployments\<newline>'',
      ''   - Analyze performance metrics leading to issue\<newline>'',
      ''\<newline>'',
      ''4. RESOLUTION STEPS\<newline>'',
      ''   - Apply the identified fix based on root cause\<newline>'',
      ''   - Test the resolution in staging environment\<newline>'',
      ''   - Deploy fix to production with monitoring\<newline>'',
      ''\<newline>'',
      ''5. VERIFICATION\<newline>'',
      ''   - Confirm service restoration\<newline>'',
      ''   - Monitor system stability for 2 hours\<newline>'',
      ''   - Validate with affected users\<newline>'',
      ''\<newline>'',
      ''6. PREVENTION\<newline>'',
      ''   - Update monitoring to catch similar issues early\<newline>'',
      ''   - Document lessons learned\<newline>'',
      ''   - Consider infrastructure improvements if recurring issue'']\<close>

definition applicationResolution :: "Issue \<Rightarrow> string" where
  \<open>applicationResolution issue = concat
     [''Application Issue Resolution for "'', title issue, ''":\<newline>'',
      ''\<newline>'',
      ''1. ISSUE REPRODUCTION\<newline>'',
      ''   - Reproduce the issue in development environment\<newline>'',
      ''   - Identify the exact steps to trigger the problem\<newline>'',
      ''   - Document expected vs actual behavior\<newline>'',
      ''\<newline>'',
      ''2. CODE ANALYSIS\<newline>'',
      ''   - Review recent code changes in affected modules\<newline>'',
      ''   - Check error logs and stack traces\<newline>'',
      ''   - Identify the specific component causing the issue\<newline>'',
      ''\<newline>'',
      ''3. DEBUGGING PROCESS\<newline>'',
      ''   - Set up debugging environment\<newline>'',
      ''   - Add logging to track execution flow\<newline>'',
      ''   - Isolate the problematic code section\<newline>'',
      ''\<newline>'',
      ''4. FIX IMPLEMENTATION\<newline>'',
      ''   - Develop a targeted fix for the root cause\<newline>'',
      ''   - Write unit tests to verify the fix\<newline>'',
      ''   - Test the fix in staging environment\<newline>'',
      ''\<newline>'',
      ''5. DEPLOYMENT\<newline>'',
      ''   - Deploy fix to production with feature flag if possible\<newline>'',
      ''   - Monitor application performance closely\<newline>'',
      ''   - Roll back if unexpected issues arise\<newline>'',
      ''\<newline>'',
      ''6. POST-RESOLUTION\<newline>'',
      ''   - Update documentation if needed\<newline>'',
      ''   - Add regression tests\<newline>'',
      ''   - Review code review process to prevent similar issues'']\<close>

definition databaseResolution :: "Issue \<Rightarrow> string" where
  \<open>databaseResolution issue = concat
     [''Database Issue Resolution for "'', title issue, ''":\<newline>'',
      ''\<newline>'',
      ''1. IMPACT ASSESSMENT\<newline>'',
      ''   - Identify affected databases and tables\<newline>'',
      ''   - Check data integrity and consistency\<newline>'',
      ''   - Estimate data loss or corruption scope\<newline>'',
      ''\<newline>'',
      ''2. IMMEDIATE CONTAINMENT\<newline>'',
      ''   - Switch to read-only mode if data corruption suspected\<newline>'',
      ''   - Promote standby database if available\<newline>'',
      ''   - Implement application-level caching to reduce load\<newline>'',
      ''\<newline>'',
      ''3. ROOT CAUSE INVESTIGATION\<newline>'',
      ''   - Review database error logs\<newline>'',
      ''   - Check query performance metrics\<newline>'',
      ''   - Analyze recent schema changes or migrations\<newline>'',
      ''\<newline>'',
      ''4. RECOVERY PROCEDURES\<newline>'',
      ''   - Restore from recent backup if necessary\<newline>'',
      ''   - Reapply transactions from backup point to current time\<newline>'',
      ''   - Validate data integrity post-restoration\<newline>'',
      ''\<newline>'',
      ''5. PERFORMANCE OPTIMIZATION\<newline>'',
      ''   - Review and optimize slow queries\<newline>'',
      ''   - Update database statistics\<newline>'',
      ''   - Consider indexing improvements\<newline>'',
      ''\<newline>'',
      ''6. PREVENTIVE MEASURES\<newline>'',
      ''   - Implement better monitoring and alerting\<newline>'',
      ''   - Schedule regular database maintenance\<newline>'',
      ''   - Review backup and recovery procedures'']\<close>

definition networkResolution :: "Issue \<Rightarrow> string" where
  \<open>networkResolution issue = concat
     [''Network Issue Resolution for "'', title issue, ''":\<newline>'',
      ''\<newline>'',
      ''1. NETWORK ASSESSMENT\<newline>'',
      ''   - Identify affected network segments and services\<newline>'',
      ''   - Test connectivity between critical nodes\<newline>'',
      ''   - Check network device status and logs\<newline>'',
      ''\<newline>'',
      ''2. TROUBLESHOOTING STEPS\<newline>'',
      ''   - Ping critical network endpoints\<newline>'',
      ''   - Trace routes to identify bottlenecks\<newline>'',
      ''   - Check firewall rules and ACL configurations\<newline>'',
      ''\<newline>'',
      ''3. CONFIGURATION REVIEW\<newline>'',
      ''   - Verify recent network configuration changes\<newline>'',
      ''   - Check DNS resolution for affected services\<newline>'',
      ''   - Review load balancer configurations\<newline>'',
      ''\<newline>'',
      ''4. RESOLUTION IMPLEMENTATION\<newline>'',
      ''   - Apply necessary configuration fixes\<newline>'',
      ''   - Restart network services if required\<newline>'',
      ''   - Update routing tables if needed\<newline>'',
      ''\<newline>'',
      ''5. VALIDATION\<newline>'',
      ''   - Test end-to-end connectivity\<newline>'',
      ''   - Verify service accessibility\<newline>'',
      ''   - Monitor network performance metrics\<newline>'',
      ''\<newline>'',
      ''6. DOCUMENTATION\<newline>'',
      ''   - Document the root cause and resolution\<newline>'',
      ''   - Update network diagrams if changes made\<newline>'',
      ''   - Review monitoring and alerting setup'']\<close>

definition securityResolution :: "Issue \<Rightarrow> string" where
  \<open>securityResolution issue = concat
     [''Security Issue Resolution for "'', title issue, ''":\<newline>'',
      ''\<newline>'',
      ''1. SECURITY ASSESSMENT\<newline>'',
      ''   - Determine the scope and impact of the security issue\<newline>'',
      ''   - Identify affected systems and data\<newline>'',
      ''   - Assess potential data exposure or system compromise\<newline>'',
      ''\<newline>'',
      ''2. IMMEDIATE CONTAINMENT\<newline>'',
      ''   - Isolate affected systems from the network\<newline>'',
      ''   - Change credentials for potentially compromised accounts\<newline>'',
      ''   - Block malicious IP addresses or traffic patterns\<newline>'',
      ''\<newline>'',
      ''3. FORENSIC ANALYSIS\<newline>'',
      ''   - Preserve system logs and evidence\<newline>'',
      ''   - Analyze attack vectors and entry points\<newline>'',
      ''   - Determine the timeline of the security breach\<newline>'',
      ''\<newline>'',
      ''4. REMEDIATION\<newline>'',
      ''   - Patch vulnerabilities that were exploited\<newline>'',
      ''   - Clean or rebuild compromised systems\<newline>'',
      ''   - Implement additional security controls\<newline>'',
      ''\<newline>'',
      ''5. RECOVERY\<newline>'',
      ''   - Restore services from clean backups\<newline>'',
      ''   - Verify system integrity and security\<newline>'',
      ''   - Monitor for any suspicious activity\<newline>'',
      ''\<newline>'',
      ''6. PREVENTION\<newline>'',
      ''   - Conduct security audit and penetration testing\<newline>'',
      ''   - Update security policies and procedures\<newline>'',
      ''   - Provide security awareness training if needed'']\<close>

text \<open>
  \<open>random\<close> is the value of \<open>Math.random()\<close>, in \<open>[0, 1)\<close>, and \<open>toString\<close> is the host's
  conversion of a number to text. An inherited property is a function or an object that has no
  element at any index, so \<open>baseTemplate\<close> is \<open>undefined\<close> then.
\<close>

definition generateResolutionTemplate ::
  "rat \<Rightarrow> (rat \<Rightarrow> string) \<Rightarrow> Issue \<Rightarrow> RetrievalResult list \<Rightarrow> jsvalue" where
  \<open>generateResolutionTemplate random toString issue relevantContent =
     (let baseTemplates =
            [(''infrastructure'', [infrastructureResolution issue]),
             (''application'', [applicationResolution issue]),
             (''database'', [databaseResolution issue]),
             (''network'', [networkResolution issue]),
             (''security'', [securityResolution issue])];
          baseTemplate =
            (case getProperty baseTemplates (category issue) of
               Own categoryTemplates \<Rightarrow>
                 elementAt categoryTemplates \<lfloor>random * of_nat (length categoryTemplates)\<rfloor>
             | Inherited \<Rightarrow> Undefined
             | Absent \<Rightarrow>
                 elementAt [infrastructureResolution issue]
                   \<lfloor>random * of_nat (length [infrastructureResolution issue])\<rfloor>)
      in if length relevantContent > 0
         then
           let relevantText =
                 join ''\<newline>\<newline>''
                   (map (\<lambda>e. concat
                          [''Similar Issue Resolution (Rating: '', toString (averageRating (entry e)),
                           ''/5):\<newline>'', take 500 (content (entry e)), ''...''])
                      relevantContent)
           in Str (concat
                [display baseTemplate, ''\<newline>'',
                 ''\<newline>'',
                 ''7. LEARNED FROM SIMILAR ISSUES\<newline>'',
                 ''   Based on analysis of '', toString (of_nat (length relevantContent)),
                 '' similar resolved issues:\<newline>'',
                 ''\<newline>'',
                 relevantText, ''\<newline>'',
                 ''\<newline>'',
                 ''   Key patterns identified:\<newline>'',
                 ''   '',
                 join ''\<newline>   ''
                   (map (\<lambda>e. ''- '' @ join '', '' (slice0 (matchedKeywords e) 3)) relevantContent),
                 ''\<newline>'',
                 ''\<newline>'',
                 ''8. ENHANCED PREVENTION\<newline>'',
                 ''   - Apply lessons learned from similar incidents\<newline>'',
                 ''   - Implement proactive monitoring for identified patterns\<newline>'',
                 ''   - Update runbooks with successful resolution strategies''])
         else baseTemplate)\<close>

text \<open>\<open>ollama\<close> is the outcome of the call to the generation backend: its text, or \<open>None\<close> when
  the call fails or answers with an error status.\<close>

definition generateResolutionWithOllama ::
  "string option \<Rightarrow> rat \<Rightarrow> (rat \<Rightarrow> string) \<Rightarrow> Issue \<Rightarrow> RetrievalResult list \<Rightarrow> jsvalue" where
  "generateResolutionWithOllama ollama random toString issue relevantContent =
     (case ollama of
        Some resolution \<Rightarrow> Str resolution
      | None \<Rightarrow> generateResolutionTemplate random toString issue relevantContent)"

subsection \<open>SOP templates\<close>

definition infrastructureSop :: "Issue \<Rightarrow> string" where
  \<open>infrastructureSop issue = concat
     [''STANDARD OPERATING PROCEDURE: INFRASTRUCTURE INCIDENT RESPONSE\<newline>'',
      ''\<newline>'',
      ''TITLE: '', title issue, ''\<newline>'',
      ''CATEGORY: '', category issue, ''\<newline>'',
      ''SEVERITY: '', severity issue, ''\<newline>'',
      ''ENVIRONMENT: '', environment issue, ''\<newline>'',
      ''\<newline>'',
      ''PURPOSE:\<newline>'',
      ''This SOP provides a standardized approach for resolving infrastructure-related issues similar to "'', title issue, ''".\<newline>'',
      ''\<newline>'',
      ''SCOPE:\<newline>'',
      ''This procedure applies to all infrastructure components including servers, networks, and cloud resources in '', environment issue, '' environment.\<newline>'',
      ''\<newline>'',
      ''PRECONDITIONS:\<newline>'',
      ''- Access to infrastructure monitoring tools\<newline>'',
      ''- Administrative privileges on affected systems\<newline>'',
      ''- Backup and recovery procedures documented\<newline>'',
      ''- Communication channels established with stakeholders\<newline>'',
      ''\<newline>'',
      ''STEP-BY-STEP PROCEDURE:\<newline>'',
      ''\<newline>'',
      ''1. INCIDENT DETECTION AND ASSESSMENT\<newline>'',
      ''   - Monitor infrastructure dashboards for anomaly detection\<newline>'',
      ''   - Verify system status and impact scope\<newline>'',
      ''   - Document affected services and user impact\<newline>'',
      ''   - Estimate recovery time objective (RTO)\<newline>'',
      ''\<newline>'',
      ''2. IMMEDIATE RESPONSE ACTIONS\<newline>'',
      ''   - Implement temporary workaround if available\<newline>'',
      ''   - Activate incident response team if severity is high/critical\<newline>'',
      ''   - Communicate status to all stakeholders\<newline>'',
      ''   - Begin root cause analysis\<newline>'',
      ''\<newline>'',
      ''3. ROOT CAUSE ANALYSIS\<newline>'',
      ''   - Review system logs for error patterns\<newline>'',
      ''   - Check recent changes or deployments\<newline>'',
      ''   - Analyze performance metrics leading to issue\<newline>'',
      ''   - Document findings in incident report\<newline>'',
      ''\<newline>'',
      ''4. RESOLUTION IMPLEMENTATION\<newline>'',
      ''   - Apply the identified fix based on root cause\<newline>'',
      ''   - Test the resolution in staging environment\<newline>'',
      ''   - Deploy fix to production with monitoring\<newline>'',
      ''   - Update configuration management database\<newline>'',
      ''\<newline>'',
      ''5. VERIFICATION AND VALIDATION\<newline>'',
      ''   - Confirm service restoration and functionality\<newline>'',
      ''   - Monitor system stability for minimum 2 hours\<newline>'',
      ''   - Validate with affected users and stakeholders\<newline>'',
      ''   - Update incident status to resolved\<newline>'',
      ''\<newline>'',
      ''6. POST-INCIDENT ACTIVITIES\<newline>'',
      ''   - Conduct post-mortem review meeting\<newline>'',
      ''   - Document lessons learned and action items\<newline>'',
      ''   - Update monitoring and alerting rules\<newline>'',
      ''   - Schedule follow-up checks to prevent recurrence\<newline>'',
      ''\<newline>'',
      ''VALIDATION CHECKS:\<newline>'',
      ''- [ ] All services are operational\<newline>'',
      ''- [ ] Performance metrics are within normal ranges\<newline>'',
      ''- [ ] No error alerts in monitoring systems\<newline>'',
      ''- [ ] User access and functionality confirmed\<newline>'',
      ''- [ ] Documentation updated\<newline>'',
      ''\<newline>'',
      ''ROLLBACK PLAN:\<newline>'',
      ''- Revert to last known good configuration\<newline>'',
      ''- Restore from recent backup if necessary\<newline>'',
      ''- Re-enable services in controlled manner\<newline>'',
      ''- Monitor for any rollback complications\<newline>'',
      ''- Communicate rollback status to stakeholders\<newline>'',
      ''\<newline>'',
      ''APPROVAL:\<newline>'',
      ''This SOP was generated based on successful resolution of similar infrastructure incidents and should be reviewed quarterly for updates.'']\<close>

definition applicationSop :: "Issue \<Rightarrow> string" where
  \<open>applicationSop issue = concat
     [''STANDARD OPERATING PROCEDURE: APPLICATION INCIDENT RESPONSE\<newline>'',
      ''\<newline>'',
      ''TITLE: '', title issue, ''\<newline>'',
      ''CATEGORY: '', category issue, ''\<newline>'',
      ''SEVERITY: '', severity issue, ''\<newline>'',
      ''ENVIRONMENT: '', environment issue, ''\<newline>'',
      ''\<newline>'',
      ''PURPOSE:\<newline>'',
      ''This SOP provides a standardized approach for resolving application-related issues similar to "'', title issue, ''".\<newline>'',
      ''\<newline>'',
      ''SCOPE:\<newline>'',
      ''This procedure applies to all application components in '', environment issue, '' environment, including web applications, APIs, and backend services.\<newline>'',
      ''\<newline>'',
      ''PRECONDITIONS:\<newline>'',
      ''- Access to application source code and deployment pipelines\<newline>'',
      ''- Development and staging environments available\<newline>'',
      ''- Application monitoring and logging tools configured\<newline>'',
      ''- Rollback procedures documented and tested\<newline>'',
      ''\<newline>'',
      ''STEP-BY-STEP PROCEDURE:\<newline>'',
      ''\<newline>'',
      ''1. ISSUE REPRODUCTION AND ANALYSIS\<newline>'',
      ''   - Reproduce the issue in development environment\<newline>'',
      ''   - Identify the exact steps to trigger the problem\<newline>'',
      ''   - Document expected vs actual behavior\<newline>'',
      ''   - Determine impact on users and business processes\<newline>'',
      ''\<newline>'',
      ''2. CODE AND CONFIGURATION REVIEW\<newline>'',
      ''   - Review recent code changes in affected modules\<newline>'',
      ''   - Check error logs and stack traces for patterns\<newline>'',
      ''   - Analyze recent configuration changes\<newline>'',
      ''   - Identify the specific component causing the issue\<newline>'',
      ''\<newline>'',
      ''3. DEBUGGING AND ISOLATION\<newline>'',
      ''   - Set up debugging environment with appropriate tools\<newline>'',
      ''   - Add logging to track execution flow\<newline>'',
      ''   - Isolate the problematic code section\<newline>'',
      ''   - Test potential fixes in isolation\<newline>'',
      ''\<newline>'',
      ''4. FIX DEVELOPMENT AND TESTING\<newline>'',
      ''   - Develop a targeted fix for the root cause\<newline>'',
      ''   - Write comprehensive unit tests to verify the fix\<newline>'',
      ''   - Test the fix in staging environment\<newline>'',
      ''   - Perform regression testing on related functionality\<newline>'',
      ''\<newline>'',
      ''5. DEPLOYMENT AND MONITORING\<newline>'',
      ''   - Deploy fix to production with feature flag if possible\<newline>'',
      ''   - Monitor application performance and error rates closely\<newline>'',
      ''   - Have rollback plan ready if unexpected issues arise\<newline>'',
      ''   - Gradually increase traffic to fixed components\<newline>'',
      ''\<newline>'',
      ''6. POST-DEPLOYMENT VALIDATION\<newline>'',
      ''   - Verify the issue is completely resolved\<newline>'',
      ''   - Monitor system stability for extended period\<newline>'',
      ''   - Collect feedback from affected users\<newline>'',
      ''   - Update documentation and knowledge base\<newline>'',
      ''\<newline>'',
      ''VALIDATION CHECKS:\<newline>'',
      ''- [ ] Application functionality restored\<newline>'',
      ''- [ ] Error rates within acceptable thresholds\<newline>'',
      ''- [ ] Performance metrics normal\<newline>'',
      ''- [ ] User testing confirms resolution\<newline>'',
      ''- [ ] No new issues introduced\<newline>'',
      ''\<newline>'',
      ''ROLLBACK PLAN:\<newline>'',
      ''- Revert to previous application version\<newline>'',
      ''- Restore database to pre-deployment state\<newline>'',
      ''- Disable problematic features\<newline>'',
      ''- Monitor system during rollback process\<newline>'',
      ''- Communicate rollback to stakeholders\<newline>'',
      ''\<newline>'',
      ''APPROVAL:\<newline>'',
      ''This SOP was generated based on successful resolution of similar application incidents and should be reviewed quarterly for updates.'']\<close>

definition databaseSop :: "Issue \<Rightarrow> string" where
  \<open>databaseSop issue = concat
     [''STANDARD OPERATING PROCEDURE: DATABASE INCIDENT RESPONSE\<newline>'',
      ''\<newline>'',
      ''TITLE: '', title issue, ''\<newline>'',
      ''CATEGORY: '', category issue, ''\<newline>'',
      ''SEVERITY: '', severity issue, ''\<newline>'',
      ''ENVIRONMENT: '', environment issue, ''\<newline>'',
      ''\<newline>'',
      ''PURPOSE:\<newline>'',
      ''This SOP provides a standardized approach for resolving database-related issues similar to "'', title issue, ''".\<newline>'',
      ''\<newline>'',
      ''SCOPE:\<newline>'',
      ''This procedure applies to all database systems in '', environment issue, '' environment, including primary, replica, and backup databases.\<newline>'',
      ''\<newline>'',
      ''PRECONDITIONS:\<newline>'',
      ''- Database administration access and privileges\<newline>'',
      ''- Current database backups verified and accessible\<newline>'',
      ''- Database monitoring and alerting systems active\<newline>'',
      ''- Disaster recovery procedures documented and tested\<newline>'',
      ''\<newline>'',
      ''STEP-BY-STEP PROCEDURE:\<newline>'',
      ''\<newline>'',
      ''1. IMPACT ASSESSMENT AND CONTAINMENT\<newline>'',
      ''   - Identify affected databases and tables\<newline>'',
      ''   - Check data integrity and consistency\<newline>'',
      ''   - Estimate data loss or corruption scope\<newline>'',
      ''   - Implement immediate containment measures\<newline>'',
      ''\<newline>'',
      ''2. IMMEDIATE RESPONSE ACTIONS\<newline>'',
      ''   - Switch to read-only mode if data corruption suspected\<newline>'',
      ''   - Promote standby database if available\<newline>'',
      ''   - Implement application-level caching to reduce load\<newline>'',
      ''   - Communicate database status to application teams\<newline>'',
      ''\<newline>'',
      ''3. ROOT CAUSE INVESTIGATION\<newline>'',
      ''   - Review database error logs and alert history\<newline>'',
      ''   - Check query performance metrics and execution plans\<newline>'',
      ''   - Analyze recent schema changes or migrations\<newline>'',
      ''   - Examine hardware and system resource utilization\<newline>'',
      ''\<newline>'',
      ''4. RECOVERY PROCEDURES\<newline>'',
      ''   - Determine appropriate recovery strategy based on impact\<newline>'',
      ''   - Restore from recent backup if necessary\<newline>'',
      ''   - Reapply transactions from backup point to current time\<newline>'',
      ''   - Validate data integrity post-restoration\<newline>'',
      ''\<newline>'',
      ''5. PERFORMANCE OPTIMIZATION\<newline>'',
      ''   - Review and optimize slow queries identified\<newline>'',
      ''   - Update database statistics and rebuild indexes\<newline>'',
      ''   - Consider indexing improvements for affected queries\<newline>'',
      ''   - Tune database configuration parameters\<newline>'',
      ''\<newline>'',
      ''6. VERIFICATION AND MONITORING\<newline>'',
      ''   - Validate data integrity with checksums and queries\<newline>'',
      ''   - Monitor database performance metrics closely\<newline>'',
      ''   - Test application functionality with recovered data\<newline>'',
      ''   - Establish enhanced monitoring for similar issues\<newline>'',
      ''\<newline>'',
      ''VALIDATION CHECKS:\<newline>'',
      ''- [ ] Data integrity verified through checksums\<newline>'',
      ''- [ ] All applications can access required data\<newline>'',
      ''- [ ] Query performance within acceptable ranges\<newline>'',
      ''- [ ] Replication and backup processes functional\<newline>'',
      ''- [ ] No data loss or corruption detected\<newline>'',
      ''\<newline>'',
      ''ROLLBACK PLAN:\<newline>'',
      ''- Restore from most recent clean backup\<newline>'',
      ''- Re-run failed transactions in correct order\<newline>'',
      ''- Re-establish database replication\<newline>'',
      ''- Verify application compatibility with restored data\<newline>'',
      ''- Monitor for any rollback-related issues\<newline>'',
      ''\<newline>'',
      ''APPROVAL:\<newline>'',
      ''This SOP was generated based on successful resolution of similar database incidents and should be reviewed quarterly for updates.'']\<close>

text \<open>\<open>templates[issue.category] || templates.infrastructure\<close>: an empty text is falsy, an
  inherited function or object is truthy and is returned as it is.\<close>

definition generateSOPTemplate :: "Issue \<Rightarrow> string \<Rightarrow> jsvalue" where
  "generateSOPTemplate issue resolution =
     (let templates =
            [(''infrastructure'', infrastructureSop issue),
             (''application'', applicationSop issue),
             (''database'', databaseSop issue)]
      in (case getProperty templates (category issue) of
            Own categoryTemplates \<Rightarrow>
              (if categoryTemplates = [] then Str (infrastructureSop issue)
               else Str categoryTemplates)
          | Inherited \<Rightarrow> Object
          | Absent \<Rightarrow> Str (infrastructureSop issue)))"

definition generateSOPWithOllama :: "string option \<Rightarrow> Issue \<Rightarrow> string \<Rightarrow> jsvalue" where
  "generateSOPWithOllama ollama issue resolution =
     (case ollama of
        Some sop \<Rightarrow> Str sop
      | None \<Rightarrow> generateSOPTemplate issue resolution)"

section \<open>Generation routes\<close>

text \<open>
  The resolution route. \<open>now\<close> is the clock. Creating a row whose text is not a text throws
  before anything is written, which the route answers with status 500. The response carries the
  new resolution and the number of retrieved entries.
\<close>

definition generate_resolution_POST ::
  "string option \<Rightarrow> rat \<Rightarrow> (rat \<Rightarrow> string) \<Rightarrow> int \<Rightarrow> db \<Rightarrow> nat option
     \<Rightarrow> (error + AiResolution \<times> nat) \<times> db" where
  "generate_resolution_POST ollama random toString now s issueIdOpt =
     (case issueIdOpt of
        None \<Rightarrow> (Inl (Error 400 ''Missing issueId''), s)
      | Some iid \<Rightarrow>
          if \<not> iid < length (issues s) then (Inl (Error 404 ''Issue not found''), s)
          else if \<exists>r \<in> set (aiResolutions s). issueId r = iid
          then (Inl (Error 400 ''Resolution already exists for this issue''), s)
          else
            let i = issues s ! iid;
                relevantContent =
                  retrieveRelevantContent (knowledgeBase s) (title i @ '' '' @ description i)
            in (case generateResolutionWithOllama ollama random toString i relevantContent of
                 Str text \<Rightarrow>
                   let resolution =
                         \<lparr>issueId = iid, resolutionText = text,
                          modelUsed = ''llama3.1:8b (Ollama + RAG)'', generatedAt = now,
                          userRating = None, userFeedback = None\<rparr>;
                       s1 = s\<lparr>aiResolutions := aiResolutions s @ [resolution]\<rparr>;
                       s2 = s1\<lparr>issues := (issues s1)[iid := i\<lparr>status := ''in_progress''\<rparr>]\<rparr>;
                       s3 = s2\<lparr>knowledgeBase := incrementUsages (knowledgeBase s2) relevantContent\<rparr>
                   in (Inr (resolution, length relevantContent), s3)
               | _ \<Rightarrow> (Inl (Error 500 ''Failed to generate AI resolution''), s)))"

text \<open>The highly rated resolutions of an issue, newest first (the \<open>include\<close> of the SOP
  route, before \<open>take: 1\<close>).\<close>

definition ratedResolutions :: "db \<Rightarrow> nat \<Rightarrow> AiResolution list" where
  "ratedResolutions s iid =
     stableSortBy (\<lambda>y x. generatedAt y > generatedAt x)
       (filter (\<lambda>r. issueId r = iid \<and> (case userRating r of Some u \<Rightarrow> u \<ge> 4 | None \<Rightarrow> False))
         (aiResolutions s))"

definition generate_sop_POST ::
  "string option \<Rightarrow> int \<Rightarrow> db \<Rightarrow> nat option \<Rightarrow> (error + AiSop) \<times> db" where
  "generate_sop_POST ollama now s issueIdOpt =
     (case issueIdOpt of
        None \<Rightarrow> (Inl (Error 400 ''Missing issueId''), s)
      | Some iid \<Rightarrow>
          if \<not> iid < length (issues s) then (Inl (Error 404 ''Issue not found''), s)
          else if status (issues s ! iid) \<noteq> ''resolved''
          then (Inl (Error 400 ''Issue must be resolved before generating SOP''), s)
          else
            (case take 1 (ratedResolutions s iid) of
               [] \<Rightarrow> (Inl (Error 400 ''No highly-rated resolution found for this issue''), s)
             | bestResolution # _ \<Rightarrow>
                 if \<exists>p \<in> set (aiSops s). sopIssueId p = iid
                 then (Inl (Error 400 ''SOP already exists for this issue''), s)
                 else
                   (case generateSOPWithOllama ollama (issues s ! iid)
                           (resolutionText bestResolution) of
                      Str text \<Rightarrow>
                        let sop = \<lparr>sopIssueId = iid, sopText = text, sopGeneratedAt = now\<rparr>;
                            s1 = s\<lparr>aiSops := aiSops s @ [sop]\<rparr>;
                            s2 = (case userRating bestResolution of
                                    Some u \<Rightarrow>
                                      if u \<noteq> 0 \<and> u \<ge> 4
                                      then s1\<lparr>knowledgeBase := knowledgeBase s1 @
                                              [\<lparr>content = text, contentType = ''sop'',
                                                averageRating = of_int u, usageCount = 1\<rparr>]\<rparr>
                                      else s1
                                  | None \<Rightarrow> s1)
                        in (Inr sop, s2)
                    | _ \<Rightarrow> (Inl (Error 500 ''Failed to generate SOP''), s))))"

section \<open>An example store\<close>

text \<open>One resolved issue with one resolution rated 4, whose text is in the knowledge base.\<close>

definition exampleIssue :: Issue where
  "exampleIssue =
     \<lparr>title = ''Database connection timeout'',
      description = ''Connections to primary DB time out under load'',
      category = ''database'', severity = ''high'', environment = ''production'',
      systemAffected = ''primary DB'', status = ''resolved'', resolvedAt = Some 20\<rparr>"

definition exampleResolution :: AiResolution where
  "exampleResolution =
     \<lparr>issueId = 0, resolutionText = ''Restart the database connection pool'',
      modelUsed = ''llama3.1:8b (Ollama + RAG)'', generatedAt = 10,
      userRating = Some 4, userFeedback = None\<rparr>"

definition exampleEntry :: KnowledgeEntry where
  "exampleEntry =
     \<lparr>content = ''Restart the database connection pool'', contentType = ''resolution'',
      averageRating = 4, usageCount = 1\<rparr>"

definition exampleDb :: db where
  "exampleDb =
     \<lparr>issues = [exampleIssue], aiResolutions = [exampleResolution], aiSops = [],
      knowledgeBase = [exampleEntry], aiRatings = []\<rparr>"

definition exampleSop :: AiSop where
  "exampleSop = \<lparr>sopIssueId = 0, sopText = ''Restart procedure'', sopGeneratedAt = 30\<rparr>"

text \<open>An entry whose content has no keyword: every word is short.\<close>

definition bareEntry :: KnowledgeEntry where
  "bareEntry = \<lparr>content = ''Use the new key'', contentType = ''resolution'', averageRating = 4, usageCount = 1\<rparr>"

text \<open>An SOP entry of the knowledge base, as SOP generation writes it.\<close>

definition exampleSopEntry :: KnowledgeEntry where
  "exampleSopEntry =
     \<lparr>content = ''Restart procedure'', contentType = ''sop'', averageRating = 4, usageCount = 1\<rparr>"

section \<open>Sequences of requests\<close>

text \<open>
  The four routes that touch the knowledge base, as requests with their bodies and with what
  the environment supplies (backend outcome, random number, clock). Requests are handled one
  after the other; two requests that overlap in time are not modelled. \<open>run\<close> gives the store
  after a sequence of requests.
\<close>

datatype request =
    Retrieve string "string option" "int option"
  | Rate nat int "string option"
  | GenerateResolution "string option" rat int "nat option"
  | GenerateSop "string option" int "nat option"

fun handle :: "(rat \<Rightarrow> string) \<Rightarrow> db \<Rightarrow> request \<Rightarrow> db" where
  "handle toString s (Retrieve query contentTypeOpt limitOpt) =
     snd (retrieve_POST s query contentTypeOpt limitOpt)"
| "handle toString s (Rate resolutionId r fb) = snd (rate_POST s resolutionId r fb)"
| "handle toString s (GenerateResolution ollama random now issueIdOpt) =
     snd (generate_resolution_POST ollama random toString now s issueIdOpt)"
| "handle toString s (GenerateSop ollama now issueIdOpt) =
     snd (generate_sop_POST ollama now s issueIdOpt)"

definition run :: "(rat \<Rightarrow> string) \<Rightarrow> db \<Rightarrow> request list \<Rightarrow> db" where
  "run toString s requests = foldl (handle toString) s requests"

section \<open>Lookups in a table\<close>

lemma find_enumerate_Some:
  assumes "List.find P (enumerate 0 xs) = Some (i, e)"
  shows "i < length xs \<and> e = xs ! i \<and> P (i, xs ! i) \<and> (\<forall>j<i. \<not> P (j, xs ! j))"
proof -
  from assms obtain k where k: "k < length (enumerate 0 xs)" "P (enumerate 0 xs ! k)"
    "(i, e) = enumerate 0 xs ! k" "\<forall>j<k. \<not> P (enumerate 0 xs ! j)"
    unfolding find_Some_iff by blast
  from k(1) have kl: "k < length xs" by simp
  with k(3) have "i = k" "e = xs ! k" by (simp_all add: nth_enumerate_eq)
  moreover have "\<forall>j<k. \<not> P (j, xs ! j)"
  proof (intro allI impI)
    fix j assume "j < k"
    with k(4) kl show "\<not> P (j, xs ! j)" by (auto simp: nth_enumerate_eq dest!: spec[of _ j])
  qed
  ultimately show ?thesis using k(2) kl by (simp add: nth_enumerate_eq)
qed

lemma find_enumerate_None:
  "List.find P (enumerate 0 xs) = None \<longleftrightarrow> (\<forall>i<length xs. \<not> P (i, xs ! i))"
  by (auto simp: find_None_iff in_set_conv_nth nth_enumerate_eq)

section \<open>Ratings below 4\<close>

text \<open>
  C5. A rating of 1, 2 or 3 leaves the knowledge base as it is, whatever the rated resolution
  and whether or not the route succeeds: no entry is created and none is modified.
\<close>

theorem sub4_rating_keeps_knowledge_base:
  "r \<in> {1, 2, 3} \<Longrightarrow> knowledgeBase (snd (rate_POST s resolutionId r fb)) = knowledgeBase s"
  by (auto simp: rate_POST_def Let_def)

text \<open>The theorem at a rating of 3 for the resolution of the example store.\<close>

theorem sub4_rating_keeps_knowledge_base_witness:
  "(3::int) \<in> {1, 2, 3} \<and> fst (rate_POST exampleDb 0 3 None) = Inr (exampleResolution\<lparr>userRating := Some 3\<rparr>)
   \<and> knowledgeBase (snd (rate_POST exampleDb 0 3 None)) = [exampleEntry]"
proof -
  have h: "(3::int) \<in> {1, 2, 3}" by simp
  have "fst (rate_POST exampleDb 0 3 None) = Inr (exampleResolution\<lparr>userRating := Some 3\<rparr>)"
    by (simp add: rate_POST_def exampleDb_def Let_def orNull_def exampleResolution_def)
  moreover have "knowledgeBase exampleDb = [exampleEntry]" by (simp add: exampleDb_def)
  ultimately show ?thesis
    using sub4_rating_keeps_knowledge_base [OF h, of exampleDb 0 None] h by simp
qed

section \<open>Ratings of 4 and 5\<close>

lemma createOrUpdateKbEntry_found:
  assumes "\<exists>e \<in> set kb. content e = text \<and> contentType e = ''resolution''"
  shows "\<exists>i<length kb.
           (content (kb ! i) = text \<and> contentType (kb ! i) = ''resolution'') \<and>
           (\<forall>j<i. \<not> (content (kb ! j) = text \<and> contentType (kb ! j) = ''resolution'')) \<and>
           createOrUpdateKbEntry kb text r =
             kb[i := (kb ! i)
                  \<lparr>usageCount := usageCount (kb ! i) + 1,
                   averageRating :=
                     (averageRating (kb ! i) * of_nat (usageCount (kb ! i)) + of_int r)
                     / of_nat (usageCount (kb ! i) + 1)\<rparr>]"
proof -
  let ?P = "\<lambda>row :: nat \<times> KnowledgeEntry.
              content (snd row) = text \<and> contentType (snd row) = ''resolution''"
  from assms have "List.find ?P (enumerate 0 kb) \<noteq> None"
    by (auto simp: find_enumerate_None in_set_conv_nth)
  then obtain i e where f: "List.find ?P (enumerate 0 kb) = Some (i, e)" by auto
  from find_enumerate_Some [OF f]
  have "i < length kb" "e = kb ! i" "?P (i, kb ! i)" "\<forall>j<i. \<not> ?P (j, kb ! j)" by auto
  moreover from f \<open>e = kb ! i\<close> have "createOrUpdateKbEntry kb text r =
      kb[i := (kb ! i)
           \<lparr>usageCount := usageCount (kb ! i) + 1,
            averageRating :=
              (averageRating (kb ! i) * of_nat (usageCount (kb ! i)) + of_int r)
              / of_nat (usageCount (kb ! i) + 1)\<rparr>]"
    by (simp add: createOrUpdateKbEntry_def)
  ultimately show ?thesis by auto
qed

lemma createOrUpdateKbEntry_new:
  assumes "\<forall>e \<in> set kb. \<not> (content e = text \<and> contentType e = ''resolution'')"
  shows "createOrUpdateKbEntry kb text r =
           kb @ [\<lparr>content = text, contentType = ''resolution'',
                  averageRating = of_int r, usageCount = 1\<rparr>]"
proof -
  have "List.find (\<lambda>row :: nat \<times> KnowledgeEntry.
          content (snd row) = text \<and> contentType (snd row) = ''resolution'') (enumerate 0 kb) = None"
    using assms by (auto simp: find_enumerate_None)
  then show ?thesis by (simp add: createOrUpdateKbEntry_def)
qed

lemma rate_POST_knowledgeBase:
  assumes "4 \<le> r" "r \<le> 5" "resolutionId < length (aiResolutions s)"
  shows "knowledgeBase (snd (rate_POST s resolutionId r fb)) =
           createOrUpdateKbEntry (knowledgeBase s)
             (resolutionText (aiResolutions s ! resolutionId)) r"
  using assms by (simp add: rate_POST_def Let_def)

text \<open>
  C2. A rating of 4 or 5 for a resolution with text \<open>text\<close>: when an entry with this content
  and content type \<open>resolution\<close> exists, the first such entry gets the average
  \<open>(oldAverage * oldUsageCount + rating) / (oldUsageCount + 1)\<close> and its usage count goes up
  by one, and nothing else changes; when there is none, one entry with the average \<open>rating\<close>
  and usage count 1 is added at the end.
\<close>

theorem rating_promotes_by_running_average:
  fixes s :: db and r :: int
  defines "kb \<equiv> knowledgeBase s"
  defines "kb' \<equiv> \<lambda>resolutionId fb. knowledgeBase (snd (rate_POST s resolutionId r fb))"
  assumes "4 \<le> r" and "r \<le> 5" and "resolutionId < length (aiResolutions s)"
  assumes "text = resolutionText (aiResolutions s ! resolutionId)"
  shows "((\<exists>e \<in> set kb. content e = text \<and> contentType e = ''resolution'') \<longrightarrow>
           (\<exists>i<length kb.
              (content (kb ! i) = text \<and> contentType (kb ! i) = ''resolution'') \<and>
              (\<forall>j<i. \<not> (content (kb ! j) = text \<and> contentType (kb ! j) = ''resolution'')) \<and>
              kb' resolutionId fb =
                kb[i := (kb ! i)
                     \<lparr>usageCount := usageCount (kb ! i) + 1,
                      averageRating :=
                        (averageRating (kb ! i) * of_nat (usageCount (kb ! i)) + of_int r)
                        / of_nat (usageCount (kb ! i) + 1)\<rparr>]))
       \<and> ((\<forall>e \<in> set kb. \<not> (content e = text \<and> contentType e = ''resolution'')) \<longrightarrow>
            kb' resolutionId fb =
              kb @ [\<lparr>content = text, contentType = ''resolution'',
                     averageRating = of_int r, usageCount = 1\<rparr>])"
  unfolding kb_def kb'_def
  using assms(3-6) createOrUpdateKbEntry_found [of "knowledgeBase s" "text" r]
    createOrUpdateKbEntry_new [of "knowledgeBase s" "text" r]
  by (simp only: rate_POST_knowledgeBase) blast

text \<open>The example store: the entry with average 4 and usage count 1, rated 5, has average
  4.5 and usage count 2 afterwards.\<close>

theorem rating_promotes_by_running_average_witness:
  "(4::int) \<le> 5 \<and> (5::int) \<le> 5 \<and> (0::nat) < length (aiResolutions exampleDb)
   \<and> averageRating exampleEntry = 4 \<and> usageCount exampleEntry = 1
   \<and> knowledgeBase (snd (rate_POST exampleDb 0 5 None)) =
       [exampleEntry\<lparr>usageCount := 2, averageRating := 4.5\<rparr>]"
proof -
  have h: "(4::int) \<le> 5" "(5::int) \<le> 5" "(0::nat) < length (aiResolutions exampleDb)"
    "resolutionText exampleResolution = resolutionText (aiResolutions exampleDb ! 0)"
    by (simp_all add: exampleDb_def)
  show ?thesis
    using rating_promotes_by_running_average [OF h, of None] h
    by (simp add: exampleDb_def exampleEntry_def exampleResolution_def)
qed

section \<open>Stable sorting\<close>

lemma length_insertBy: "length (insertBy precedes x xs) = Suc (length xs)"
  by (induction xs) simp_all

lemma length_stableSortBy: "length (stableSortBy precedes xs) = length xs"
  by (induction xs) (simp_all add: stableSortBy_def length_insertBy)

lemma set_insertBy: "set (insertBy precedes x xs) = insert x (set xs)"
  by (induction xs) auto

lemma set_stableSortBy: "set (stableSortBy precedes xs) = set xs"
  by (induction xs) (simp_all add: stableSortBy_def set_insertBy)

lemma stableSortBy_Nil_iff: "stableSortBy precedes xs = [] \<longleftrightarrow> xs = []"
  using length_stableSortBy [of precedes xs] by (metis length_0_conv)

section \<open>Refused generation\<close>

lemma ratedResolutions_Nil_iff:
  "ratedResolutions s iid = [] \<longleftrightarrow>
     (\<forall>r \<in> set (aiResolutions s).
        issueId r = iid \<longrightarrow> (case userRating r of Some u \<Rightarrow> u < 4 | None \<Rightarrow> True))"
  by (auto simp: ratedResolutions_def stableSortBy_Nil_iff filter_empty_conv
           split: option.splits)

lemma generate_sop_POST_refused:
  assumes "iid < length (issues s)"
    and "status (issues s ! iid) \<noteq> ''resolved''
         \<or> (\<forall>r \<in> set (aiResolutions s).
               issueId r = iid \<longrightarrow> (case userRating r of Some u \<Rightarrow> u < 4 | None \<Rightarrow> True))
         \<or> (\<exists>p \<in> set (aiSops s). sopIssueId p = iid)"
  shows "\<exists>msg. generate_sop_POST ollama now s (Some iid) = (Inl (Error 400 msg), s)"
proof (cases "status (issues s ! iid) \<noteq> ''resolved''")
  case True
  with assms(1) show ?thesis by (simp add: generate_sop_POST_def)
next
  case resolved: False
  show ?thesis
  proof (cases "ratedResolutions s iid")
    case Nil
    with assms(1) resolved show ?thesis by (simp add: generate_sop_POST_def)
  next
    case (Cons b bs)
    then have "ratedResolutions s iid \<noteq> []" by simp
    with assms(2) resolved have "\<exists>p \<in> set (aiSops s). sopIssueId p = iid"
      unfolding ratedResolutions_Nil_iff by blast
    with assms(1) resolved Cons show ?thesis by (simp add: generate_sop_POST_def)
  qed
qed

lemma generate_resolution_POST_refused:
  assumes "iid < length (issues s)" and "\<exists>r \<in> set (aiResolutions s). issueId r = iid"
  shows "generate_resolution_POST ollama random toString now s (Some iid) =
           (Inl (Error 400 ''Resolution already exists for this issue''), s)"
  using assms by (simp add: generate_resolution_POST_def)

text \<open>
  C7. For an issue of the store, SOP generation answers with the error status 400 and leaves
  the whole store as it is when the issue is not in status \<open>resolved\<close>, or has no resolution
  rated 4 or more, or already has an SOP; resolution generation does so when the issue already
  has a resolution. The backend outcome plays no part: there is no fallback text and no new
  row.
\<close>

theorem generation_refused_without_preconditions:
  assumes "iid < length (issues s)"
  shows "((status (issues s ! iid) \<noteq> ''resolved''
           \<or> (\<forall>r \<in> set (aiResolutions s).
                 issueId r = iid \<longrightarrow> (case userRating r of Some u \<Rightarrow> u < 4 | None \<Rightarrow> True))
           \<or> (\<exists>p \<in> set (aiSops s). sopIssueId p = iid))
          \<longrightarrow> (\<exists>msg. generate_sop_POST ollama now s (Some iid) = (Inl (Error 400 msg), s)))
       \<and> ((\<exists>r \<in> set (aiResolutions s). issueId r = iid)
          \<longrightarrow> generate_resolution_POST ollama' random toString now' s (Some iid) =
                (Inl (Error 400 ''Resolution already exists for this issue''), s))"
  using generate_sop_POST_refused [OF assms] generate_resolution_POST_refused [OF assms]
  by blast

text \<open>The example store with an SOP added: both routes refuse.\<close>

theorem generation_refused_without_preconditions_witness:
  "generate_sop_POST None 40 (exampleDb\<lparr>aiSops := [exampleSop]\<rparr>) (Some 0) =
     (Inl (Error 400 ''SOP already exists for this issue''), exampleDb\<lparr>aiSops := [exampleSop]\<rparr>)
   \<and> generate_resolution_POST None 0 (\<lambda>x. ''4'') 40 (exampleDb\<lparr>aiSops := [exampleSop]\<rparr>) (Some 0) =
     (Inl (Error 400 ''Resolution already exists for this issue''),
      exampleDb\<lparr>aiSops := [exampleSop]\<rparr>)"
proof -
  let ?s = "exampleDb\<lparr>aiSops := [exampleSop]\<rparr>"
  have h: "(0::nat) < length (issues ?s)" by (simp add: exampleDb_def)
  have a: "\<exists>p \<in> set (aiSops ?s). sopIssueId p = 0" by (simp add: exampleSop_def)
  have b: "\<exists>r \<in> set (aiResolutions ?s). issueId r = 0"
    by (simp add: exampleDb_def exampleResolution_def)
  have c: "status (issues ?s ! 0) = ''resolved''"
    by (simp add: exampleDb_def exampleIssue_def)
  have d: "ratedResolutions ?s 0 = [exampleResolution]"
    by (simp add: ratedResolutions_def exampleDb_def exampleResolution_def stableSortBy_def)
  from generation_refused_without_preconditions [OF h, of None 40 None 0 "\<lambda>x. ''4''" 40] a b
  obtain msg where m: "generate_sop_POST None 40 ?s (Some 0) = (Inl (Error 400 msg), ?s)"
    and r: "generate_resolution_POST None 0 (\<lambda>x. ''4'') 40 ?s (Some 0) =
              (Inl (Error 400 ''Resolution already exists for this issue''), ?s)"
    by blast
  have "fst (generate_sop_POST None 40 ?s (Some 0)) =
          Inl (Error 400 ''SOP already exists for this issue'')"
    using h a c d by (simp add: generate_sop_POST_def)
  with m r show ?thesis by simp
qed

section \<open>The issue after resolution generation\<close>

text \<open>
  C10. A call of the resolution route that succeeds adds the new resolution and sets the status
  of its issue to \<open>in_progress\<close>, whatever it was; every other field of the issue and every
  other issue stay as they were.
\<close>

theorem resolution_generation_sets_in_progress:
  assumes "generate_resolution_POST ollama random toString now s issueIdOpt = (Inr res, s')"
  shows "\<exists>iid. issueIdOpt = Some iid \<and> iid < length (issues s) \<and>
           issues s' = (issues s)[iid := (issues s ! iid)\<lparr>status := ''in_progress''\<rparr>] \<and>
           aiResolutions s' = aiResolutions s @ [fst res] \<and> issueId (fst res) = iid \<and>
           aiSops s' = aiSops s \<and> aiRatings s' = aiRatings s"
proof (cases issueIdOpt)
  case None
  with assms show ?thesis by (simp add: generate_resolution_POST_def)
next
  case (Some iid)
  with assms show ?thesis
    by (auto simp: generate_resolution_POST_def Let_def split: if_splits jsvalue.splits)
qed

text \<open>The example store without its resolution, the backend answering: the issue goes from
  \<open>resolved\<close> to \<open>in_progress\<close>.\<close>

theorem resolution_generation_sets_in_progress_witness:
  "fst (generate_resolution_POST (Some ''Restart the pool'') 0 (\<lambda>x. ''4'') 40
          (exampleDb\<lparr>aiResolutions := []\<rparr>) (Some 0)) =
     Inr (\<lparr>issueId = 0, resolutionText = ''Restart the pool'',
            modelUsed = ''llama3.1:8b (Ollama + RAG)'', generatedAt = 40,
            userRating = None, userFeedback = None\<rparr>, 1)
   \<and> status exampleIssue = ''resolved''
   \<and> issues (snd (generate_resolution_POST (Some ''Restart the pool'') 0 (\<lambda>x. ''4'') 40
          (exampleDb\<lparr>aiResolutions := []\<rparr>) (Some 0))) =
       [exampleIssue\<lparr>status := ''in_progress''\<rparr>]"
proof -
  have e: "generate_resolution_POST (Some ''Restart the pool'') 0 (\<lambda>x. ''4'') 40
       (exampleDb\<lparr>aiResolutions := []\<rparr>) (Some 0) =
     (Inr (\<lparr>issueId = 0, resolutionText = ''Restart the pool'',
             modelUsed = ''llama3.1:8b (Ollama + RAG)'', generatedAt = 40,
             userRating = None, userFeedback = None\<rparr>, 1),
      \<lparr>issues = [exampleIssue\<lparr>status := ''in_progress''\<rparr>],
        aiResolutions = [\<lparr>issueId = 0, resolutionText = ''Restart the pool'',
             modelUsed = ''llama3.1:8b (Ollama + RAG)'', generatedAt = 40,
             userRating = None, userFeedback = None\<rparr>],
        aiSops = [], knowledgeBase = [exampleEntry\<lparr>usageCount := 2\<rparr>], aiRatings = []\<rparr>)"
    by code_simp
  show ?thesis
    using resolution_generation_sets_in_progress [OF e] e
    by (simp add: exampleDb_def exampleIssue_def)
qed

section \<open>The relevance score\<close>

lemma divideCounts_Num: "b \<noteq> 0 \<Longrightarrow> divideCounts a b = Num (of_nat a / of_nat b)"
  by (simp add: divideCounts_def)

lemma finalScore_Num:
  assumes "\<not> (qk = [] \<and> extractKeywords (content e) = [])"
  shows "finalScore qk e =
      Num (of_nat (length (filter (\<lambda>k. k \<in> set (extractKeywords (content e))) qk))
                  / of_nat (max (length qk) (length (extractKeywords (content e)))) * 0.6
                + averageRating e / 5 * 0.3
                + min (of_nat (usageCount e) / 10) 1 * 0.1)"
proof -
  from assms have m: "max (length qk) (length (extractKeywords (content e))) \<noteq> 0" by auto
  show ?thesis
    unfolding finalScore_def Let_def keywordSimilarity_def divideCounts_Num [OF m]
      timesConst.simps plusNumber.simps
    by (rule refl)
qed

lemma finalScore_NaN:
  assumes "qk = [] \<and> extractKeywords (content e) = []"
  shows "finalScore qk e = NaN"
  using assms by (simp add: finalScore_def keywordSimilarity_def divideCounts_def)
lemma blend_bounds:
  fixes sim r u :: rat
  assumes "0 \<le> sim" "sim \<le> 1" "0 \<le> r" "r \<le> 1" "0 \<le> u" "u \<le> 1"
  shows "0 \<le> sim * 0.6 + r * 0.3 + u * 0.1" and "sim * 0.6 + r * 0.3 + u * 0.1 \<le> 1"
  using assms by simp_all

lemma ratio_bounds:
  fixes c m :: nat
  assumes "c \<le> m" "0 < m"
  shows "0 \<le> (of_nat c :: rat) / of_nat m" and "(of_nat c :: rat) / of_nat m \<le> 1"
  using assms by simp_all

lemma finalScore_bounds:
  assumes "1 \<le> averageRating e" "averageRating e \<le> 5"
    and ne: "\<not> (qk = [] \<and> extractKeywords (content e) = [])"
  shows "\<exists>x. finalScore qk e = Num x \<and> 0 \<le> x \<and> x \<le> 1"
proof -
  define c where "c = length (filter (\<lambda>k. k \<in> set (extractKeywords (content e))) qk)"
  define m where "m = max (length qk) (length (extractKeywords (content e)))"
  define u where "u = min ((of_nat (usageCount e) :: rat) / 10) 1"
  define r where "r = averageRating e / 5"
  have m: "0 < m" using ne by (simp add: m_def less_max_iff_disj)
  have "c \<le> length qk" by (simp add: c_def)
  then have cm: "c \<le> m" by (simp add: m_def)
  have u: "0 \<le> u" "u \<le> 1" by (simp_all add: u_def)
  have r: "0 \<le> r" "r \<le> 1" using assms(1,2) by (simp_all add: r_def)
  have "finalScore qk e = Num (of_nat c / of_nat m * 0.6 + r * 0.3 + u * 0.1)"
    unfolding c_def m_def r_def u_def by (rule finalScore_Num [OF ne])
  with blend_bounds [OF ratio_bounds [OF cm m] r u] show ?thesis by blast
qed

lemma greaterThan_finalScore:
  assumes "greaterThan (finalScore qk e) c"
  shows "\<exists>x. finalScore qk e = Num x \<and> x > c"
proof (cases "qk = [] \<and> extractKeywords (content e) = []")
  case True
  with assms show ?thesis by (simp add: finalScore_NaN)
next
  case False
  from assms show ?thesis unfolding finalScore_Num [OF False] by simp
qed

text \<open>
  C4. A query without keywords scored against an entry whose content has no keyword either:
  the similarity is the quotient \<open>0 / 0\<close>, which is \<open>NaN\<close> and not 0, so the final score is
  \<open>NaN\<close> and lies outside \<open>[0, 1]\<close>; the comparison with 0.1 fails and the entry is not
  retrieved.
\<close>

theorem scorer_zero_denominator:
  "extractKeywords ''Why is it down'' = [] \<and> extractKeywords (content bareEntry) = []
   \<and> keywordSimilarity [] [] [] = NaN
   \<and> finalScore (extractKeywords ''Why is it down'') bareEntry = NaN
   \<and> retrieve [bareEntry] ''Why is it down'' ''resolution'' 5 = []"
  by code_simp


section \<open>Retrieval\<close>

lemma set_slice0: "set (slice0 xs limit) \<subseteq> set xs"
  by (auto simp: slice0_def dest: in_set_takeD)

lemma length_slice0: "0 \<le> limit \<Longrightarrow> length (slice0 xs limit) \<le> nat limit"
  by (simp add: slice0_def)

lemma in_findManyKnowledge:
  assumes "row \<in> set (findManyKnowledge kb ct n)"
  shows "fst row < length kb \<and> snd row = kb ! fst row \<and> contentType (snd row) = ct
         \<and> averageRating (snd row) \<ge> 3.5"
proof -
  from assms have "row \<in> set (filter (\<lambda>row. contentType (snd row) = ct \<and> averageRating (snd row) \<ge> 3.5)
         (enumerate 0 kb))"
    unfolding findManyKnowledge_def by (auto dest!: in_set_takeD simp: set_stableSortBy)
  then show ?thesis by (auto simp: in_set_enumerate_eq)
qed

lemma in_rankEntries:
  "e \<in> set (rankEntries es) \<longleftrightarrow> e \<in> set es \<and> greaterThan (similarityScore e) 0.1"
  by (simp add: rankEntries_def set_stableSortBy)

lemma in_retrieve:
  assumes "e \<in> set (retrieve kb query ct limit)"
  shows "entryId e < length kb \<and> entry e = kb ! entryId e \<and> contentType (entry e) = ct
         \<and> averageRating (entry e) \<ge> 3.5
         \<and> similarityScore e = finalScore (extractKeywords query) (entry e)
         \<and> (\<exists>x. similarityScore e = Num x \<and> x > 0.1)"
proof -
  from assms have "e \<in> set (rankEntries (map (scoreEntry (extractKeywords query))
      (findManyKnowledge kb ct 50)))"
    unfolding retrieve_def by (rule subsetD [OF set_slice0])
  then have "e \<in> set (map (scoreEntry (extractKeywords query)) (findManyKnowledge kb ct 50))"
    and g: "greaterThan (similarityScore e) 0.1"
    unfolding in_rankEntries by blast+
  then obtain row where row: "row \<in> set (findManyKnowledge kb ct 50)"
    and e: "e = scoreEntry (extractKeywords query) row"
    by (auto simp only: set_map image_iff)
  from e have sc: "similarityScore e = finalScore (extractKeywords query) (entry e)"
    "entryId e = fst row" "entry e = snd row"
    by (simp_all add: scoreEntry_def)
  with g greaterThan_finalScore [of "extractKeywords query" "entry e" "0.1"]
  have x: "\<exists>x. similarityScore e = Num x \<and> x > 0.1" by simp
  from in_findManyKnowledge [OF row]
  have "entryId e < length kb" "entry e = kb ! entryId e" "contentType (entry e) = ct"
    "averageRating (entry e) \<ge> 3.5"
    unfolding sc(2,3) by blast+
  with sc(1) x show ?thesis by blast
qed

lemma retrieve_empty_pool: "retrieve [] query ct limit = []"
  by (simp add: retrieve_def findManyKnowledge_def stableSortBy_def rankEntries_def slice0_def)

text \<open>
  C6 (amended). For every query, content type, knowledge base and limit that is not negative,
  retrieval returns at most \<open>limit\<close> results; every result is an entry of the knowledge base
  with an average of at least 3.5 and carries its computed final score, which is a finite number
  above 0.1; an empty knowledge base gives the empty list; and the route answers a query that is
  not empty with this list.
\<close>

theorem retrieve_limit_and_floors:
  assumes "0 \<le> limit"
  shows "int (length (retrieve kb query ct limit)) \<le> limit
       \<and> (\<forall>e \<in> set (retrieve kb query ct limit).
            entryId e < length kb \<and> entry e = kb ! entryId e
            \<and> averageRating (entry e) \<ge> 3.5
            \<and> similarityScore e = finalScore (extractKeywords query) (entry e)
            \<and> (\<exists>x. similarityScore e = Num x \<and> x > 0.1))
       \<and> retrieve [] query ct limit = []
       \<and> (query \<noteq> [] \<longrightarrow>
            fst (retrieve_POST s query (Some ct) (Some limit)) =
              Inr (retrieve (knowledgeBase s) query ct limit))"
proof -
  have "length (retrieve kb query ct limit) \<le> nat limit"
    unfolding retrieve_def by (rule length_slice0 [OF assms])
  with assms have "int (length (retrieve kb query ct limit)) \<le> limit" by linarith
  moreover have "\<forall>e \<in> set (retrieve kb query ct limit).
            entryId e < length kb \<and> entry e = kb ! entryId e
            \<and> averageRating (entry e) \<ge> 3.5
            \<and> similarityScore e = finalScore (extractKeywords query) (entry e)
            \<and> (\<exists>x. similarityScore e = Num x \<and> x > 0.1)"
    using in_retrieve by blast
  moreover have "query \<noteq> [] \<longrightarrow>
            fst (retrieve_POST s query (Some ct) (Some limit)) =
              Inr (retrieve (knowledgeBase s) query ct limit)"
    by (simp add: retrieve_POST_def Let_def)
  ultimately show ?thesis using retrieve_empty_pool by blast
qed



text \<open>Two entries and the limit 1: the entry that shares two keywords with the query.\<close>

theorem retrieve_limit_and_floors_witness:
  "(0::int) \<le> 1 \<and> ''database connection'' \<noteq> []
   \<and> retrieve [exampleEntry, bareEntry] ''database connection'' ''resolution'' 1 =
       [\<lparr>entryId = 0, entry = exampleEntry, similarityScore = Num 0.55,
         matchedKeywords = [''database'', ''connection'']\<rparr>]
   \<and> averageRating exampleEntry \<ge> 3.5"
proof -
  have h: "(0::int) \<le> 1" by simp
  have e: "retrieve [exampleEntry, bareEntry] ''database connection'' ''resolution'' 1 =
       [\<lparr>entryId = 0, entry = exampleEntry, similarityScore = Num 0.55,
         matchedKeywords = [''database'', ''connection'']\<rparr>]"
    by code_simp
  show ?thesis
    using retrieve_limit_and_floors [OF h, of "[exampleEntry, bareEntry]" "''database connection''"
        "''resolution''" exampleDb] e
    by simp
qed

text \<open>The limit \<open>-1\<close> cuts off the last surviving entry only, so two entries give one result,
  which is more than the limit.\<close>

theorem retrieve_negative_limit_counterexample:
  "map entryId (retrieve [exampleEntry, bareEntry] ''database connection'' ''resolution'' (- 1)) = [0]
   \<and> \<not> int (length (retrieve [exampleEntry, bareEntry] ''database connection'' ''resolution'' (- 1)))
         \<le> - 1"
  by code_simp

section \<open>Keyword extraction\<close>

lemma of_char_add32:
  assumes "(of_char c :: nat) \<le> 222"
  shows "(of_char (char_of (of_char c + 32 :: nat) :: char) :: nat) = of_char c + 32"
  using assms by simp

lemma toLowerChar_idem: "toLowerChar (toLowerChar c) = toLowerChar c"
proof (cases "(65 \<le> (of_char c :: nat) \<and> (of_char c :: nat) \<le> 90)
      \<or> (192 \<le> (of_char c :: nat) \<and> (of_char c :: nat) \<le> 222 \<and> (of_char c :: nat) \<noteq> 215)")
  case True
  then have le: "(of_char c :: nat) \<le> 222" by linarith
  from True have l: "toLowerChar c = char_of (of_char c + 32 :: nat)"
    unfolding toLowerChar_def Let_def by (rule if_P)
  have "\<not> ((65 \<le> (of_char c + 32 :: nat) \<and> (of_char c + 32 :: nat) \<le> 90)
      \<or> (192 \<le> (of_char c + 32 :: nat) \<and> (of_char c + 32 :: nat) \<le> 222 \<and> (of_char c + 32 :: nat) \<noteq> 215))"
    using True by linarith
  then show ?thesis
    unfolding l unfolding toLowerChar_def Let_def of_char_add32 [OF le] by (simp only: if_False)
next
  case False
  then have "toLowerChar c = c" unfolding toLowerChar_def Let_def by (rule if_not_P)
  then show ?thesis by simp
qed
lemma word_not_space: "isWordChar c \<Longrightarrow> \<not> isSpaceChar c"
  by (auto simp: isWordChar_def isSpaceChar_def Let_def)

lemma space_char: "isSpaceChar CHR '' ''" "toLowerChar CHR '' '' = CHR '' ''"
  by (simp_all add: isSpaceChar_def toLowerChar_def)

lemma splitWs_rec:
  assumes "dropWhile (\<lambda>c. \<not> isSpaceChar c) s \<noteq> []"
  shows "splitWs s = takeWhile (\<lambda>c. \<not> isSpaceChar c) s
               # splitWs (dropWhile isSpaceChar (dropWhile (\<lambda>c. \<not> isSpaceChar c) s))"
proof -
  have "splitWs s =
      (if dropWhile (\<lambda>c. \<not> isSpaceChar c) s = [] then [takeWhile (\<lambda>c. \<not> isSpaceChar c) s]
       else takeWhile (\<lambda>c. \<not> isSpaceChar c) s
            # splitWs (dropWhile isSpaceChar (dropWhile (\<lambda>c. \<not> isSpaceChar c) s)))"
    using splitWs.simps [of s] unfolding Let_def .
  also have "\<dots> = takeWhile (\<lambda>c. \<not> isSpaceChar c) s
               # splitWs (dropWhile isSpaceChar (dropWhile (\<lambda>c. \<not> isSpaceChar c) s))"
    using assms by (rule if_not_P)
  finally show ?thesis .
qed

lemma splitWs_last:
  assumes "dropWhile (\<lambda>c. \<not> isSpaceChar c) s = []"
  shows "splitWs s = [takeWhile (\<lambda>c. \<not> isSpaceChar c) s]"
proof -
  have "splitWs s =
      (if dropWhile (\<lambda>c. \<not> isSpaceChar c) s = [] then [takeWhile (\<lambda>c. \<not> isSpaceChar c) s]
       else takeWhile (\<lambda>c. \<not> isSpaceChar c) s
            # splitWs (dropWhile isSpaceChar (dropWhile (\<lambda>c. \<not> isSpaceChar c) s)))"
    using splitWs.simps [of s] unfolding Let_def .
  also have "\<dots> = [takeWhile (\<lambda>c. \<not> isSpaceChar c) s]"
    using assms by (rule if_P)
  finally show ?thesis .
qed
lemma splitWs_Nil: "splitWs [] = [[]]"
  using splitWs_last [of "[]"] by simp

lemma splitWs_no_space:
  assumes "\<forall>c \<in> set t. \<not> isSpaceChar c"
  shows "splitWs t = [t]"
proof -
  from assms have "takeWhile (\<lambda>c. \<not> isSpaceChar c) t = t"
    and d: "dropWhile (\<lambda>c. \<not> isSpaceChar c) t = []" by simp_all
  with splitWs_last [OF d] show ?thesis by simp
qed

lemma splitWs_token_space:
  assumes t: "\<forall>c \<in> set t. \<not> isSpaceChar c"
    and sp: "isSpaceChar x"
    and r: "r \<noteq> []" "\<not> isSpaceChar (hd r)"
  shows "splitWs (t @ x # r) = t # splitWs r"
proof -
  from t sp have tk: "takeWhile (\<lambda>c. \<not> isSpaceChar c) (t @ x # r) = t"
    by (simp add: takeWhile_append2 [where P = "\<lambda>c. \<not> isSpaceChar c"])
  from t sp have dr: "dropWhile (\<lambda>c. \<not> isSpaceChar c) (t @ x # r) = x # r"
    by (simp add: dropWhile_append2 [where P = "\<lambda>c. \<not> isSpaceChar c"])
  from r obtain y ys where "r = y # ys" "\<not> isSpaceChar y" by (cases r) auto
  with sp have dd: "dropWhile isSpaceChar (x # r) = r" by simp
  from dr have "dropWhile (\<lambda>c. \<not> isSpaceChar c) (t @ x # r) \<noteq> []" by simp
  from splitWs_rec [OF this] show ?thesis unfolding tk dr dd .
qed

lemma in_takeWhile_not_space:
  "c \<in> set (takeWhile (\<lambda>c. \<not> isSpaceChar c) s) \<Longrightarrow> c \<in> set s \<and> \<not> isSpaceChar c"
  by (rule set_takeWhileD)

lemma splitWs_tokens: "t \<in> set (splitWs s) \<Longrightarrow> c \<in> set t \<Longrightarrow> c \<in> set s \<and> \<not> isSpaceChar c"
proof (induction s rule: splitWs.induct)
  case (1 s)
  show ?case
  proof (cases "dropWhile (\<lambda>c. \<not> isSpaceChar c) s = []")
    case True
    from "1.prems"(1) have "t = takeWhile (\<lambda>c. \<not> isSpaceChar c) s"
      unfolding splitWs_last [OF True] by simp
    with "1.prems"(2) have "c \<in> set (takeWhile (\<lambda>c. \<not> isSpaceChar c) s)" by simp
    then show ?thesis by (rule in_takeWhile_not_space)
  next
    case False
    from "1.prems"(1) have "t = takeWhile (\<lambda>c. \<not> isSpaceChar c) s
        \<or> t \<in> set (splitWs (dropWhile isSpaceChar (dropWhile (\<lambda>c. \<not> isSpaceChar c) s)))"
      unfolding splitWs_rec [OF False] by simp
    then show ?thesis
    proof
      assume "t = takeWhile (\<lambda>c. \<not> isSpaceChar c) s"
      with "1.prems"(2) have "c \<in> set (takeWhile (\<lambda>c. \<not> isSpaceChar c) s)" by simp
    then show ?thesis by (rule in_takeWhile_not_space)
    next
      assume "t \<in> set (splitWs (dropWhile isSpaceChar (dropWhile (\<lambda>c. \<not> isSpaceChar c) s)))"
      from "1.IH" [OF refl refl False this "1.prems"(2)]
      have "c \<in> set (dropWhile isSpaceChar (dropWhile (\<lambda>c. \<not> isSpaceChar c) s))"
        and ns: "\<not> isSpaceChar c" by blast+
      then have "c \<in> set s" by (blast dest: set_dropWhileD)
      then show ?thesis using ns by (rule conjI)
    qed
  qed
qed

lemma join_chars: "c \<in> set (join sep ks) \<Longrightarrow> c \<in> set sep \<or> (\<exists>k \<in> set ks. c \<in> set k)"
  by (induction sep ks rule: join.induct) auto

lemma hd_join: "k \<noteq> [] \<Longrightarrow> join sep (k # ks) \<noteq> [] \<and> hd (join sep (k # ks)) = hd k"
  by (cases ks) simp_all

lemma splitWs_join:
  assumes "\<forall>k \<in> set ks. k \<noteq> [] \<and> (\<forall>c \<in> set k. \<not> isSpaceChar c)"
  shows "splitWs (join '' '' ks) = (if ks = [] then [[]] else ks)"
  using assms
proof (induction "'' ''" ks rule: join.induct)
  case 1
  show ?case by (simp add: splitWs_Nil)
next
  case (2 x)
  then show ?case by (simp add: splitWs_no_space)
next
  case (3 x y ys)
  from "3.prems" have x: "\<forall>c \<in> set x. \<not> isSpaceChar c" by simp
  from "3.prems" have y: "y \<noteq> []" "\<not> isSpaceChar (hd y)" by simp_all
  with hd_join [of y "'' ''" ys]
  have j: "join '' '' (y # ys) \<noteq> []" "\<not> isSpaceChar (hd (join '' '' (y # ys)))" by simp_all
  have "splitWs (join '' '' (x # y # ys)) = x # splitWs (join '' '' (y # ys))"
    using splitWs_token_space [OF x space_char(1) j] by simp
  with "3.hyps" "3.prems" show ?case by simp
qed

lemma set_uniqueFrom: "set (uniqueFrom seen xs) = set xs - set seen"
  by (induction seen xs rule: uniqueFrom.induct) auto

lemma distinct_uniqueFrom: "distinct (uniqueFrom seen xs)"
  by (induction seen xs rule: uniqueFrom.induct) (auto simp: set_uniqueFrom)

lemma uniqueFrom_distinct: "distinct xs \<Longrightarrow> set xs \<inter> set seen = {} \<Longrightarrow> uniqueFrom seen xs = xs"
  by (induction seen xs rule: uniqueFrom.induct) auto

lemma unique_distinct: "distinct xs \<Longrightarrow> unique xs = xs"
  by (simp add: unique_def uniqueFrom_distinct)

lemma extractKeywords_shape:
  assumes "k \<in> set (extractKeywords text)"
  shows "length k > 3 \<and> k \<notin> set stopWords
         \<and> (\<forall>c \<in> set k. isWordChar c \<and> \<not> isSpaceChar c \<and> toLowerChar c = c)"
proof -
  from assms have k: "k \<in> set (splitWs (stripNonWord (toLowerCase text)))"
    and l: "length k > 3" and s: "k \<notin> set stopWords"
    by (auto simp: extractKeywords_def unique_def set_uniqueFrom)
  have "\<forall>c \<in> set k. isWordChar c \<and> \<not> isSpaceChar c \<and> toLowerChar c = c"
  proof
    fix c assume "c \<in> set k"
    from splitWs_tokens [OF k this]
    have "c \<in> set (stripNonWord (toLowerCase text))" "\<not> isSpaceChar c" by simp_all
    then obtain c0 where "c = toLowerChar c0" "isWordChar c"
      by (auto simp: stripNonWord_def toLowerCase_def)
    with \<open>\<not> isSpaceChar c\<close> show "isWordChar c \<and> \<not> isSpaceChar c \<and> toLowerChar c = c"
      by (simp add: toLowerChar_idem)
  qed
  with l s show ?thesis by simp
qed

lemma distinct_extractKeywords: "distinct (extractKeywords text)"
  by (simp add: extractKeywords_def unique_def distinct_uniqueFrom)

lemma extractKeywords_join:
  assumes d: "distinct ks"
    and g: "\<forall>k \<in> set ks. length k > 3 \<and> k \<notin> set stopWords
              \<and> (\<forall>c \<in> set k. isWordChar c \<and> \<not> isSpaceChar c \<and> toLowerChar c = c)"
  shows "extractKeywords (join '' '' ks) = ks"
proof -
  have ch: "\<forall>c \<in> set (join '' '' ks). toLowerChar c = c \<and> (isWordChar c \<or> isSpaceChar c)"
  proof
    fix c assume "c \<in> set (join '' '' ks)"
    from join_chars [OF this] g show "toLowerChar c = c \<and> (isWordChar c \<or> isSpaceChar c)"
      by (auto simp: space_char)
  qed
  then have "toLowerCase (join '' '' ks) = join '' '' ks"
    unfolding toLowerCase_def by (intro map_idI) blast
  moreover from ch have "stripNonWord (join '' '' ks) = join '' '' ks"
    unfolding stripNonWord_def filter_id_conv by blast
  moreover from g have "splitWs (join '' '' ks) = (if ks = [] then [[]] else ks)"
    by (intro splitWs_join) auto
  ultimately have "extractKeywords (join '' '' ks) =
      unique (filter (\<lambda>word. word \<notin> set stopWords)
        (filter (\<lambda>word. length word > 3) (if ks = [] then [[]] else ks)))"
    unfolding extractKeywords_def by (simp only:)
  also have "\<dots> = unique ks"
  proof (cases "ks = []")
    case True
    then show ?thesis by simp
  next
    case False
    moreover from g have "filter (\<lambda>word. length word > 3) ks = ks" by simp
    moreover from g have "filter (\<lambda>word. word \<notin> set stopWords) ks = ks" by simp
    ultimately show ?thesis by simp
  qed
  also have "\<dots> = ks" using d by (rule unique_distinct)
  finally show ?thesis .
qed

text \<open>
  C9. Extracting the keywords of the space-joined keywords of a text gives the keywords of the
  text again, as the same list: every keyword is longer than 3 characters, is no stop-word,
  and consists of word characters that are lower-case already, so the second pass removes
  nothing and splits at the single spaces only.
\<close>

theorem extractKeywords_idempotent:
  "extractKeywords (join '' '' (extractKeywords text)) = extractKeywords text
   \<and> (\<forall>k \<in> set (extractKeywords text).
         length k > 3 \<and> k \<notin> set stopWords
         \<and> (\<forall>c \<in> set k. isWordChar c \<and> \<not> isSpaceChar c \<and> toLowerChar c = c))"
proof -
  have shape: "\<forall>k \<in> set (extractKeywords text).
         length k > 3 \<and> k \<notin> set stopWords
         \<and> (\<forall>c \<in> set k. isWordChar c \<and> \<not> isSpaceChar c \<and> toLowerChar c = c)"
    by (rule ballI) (rule extractKeywords_shape)
  from distinct_extractKeywords shape
  have "extractKeywords (join '' '' (extractKeywords text)) = extractKeywords text"
    by (rule extractKeywords_join)
  then show ?thesis using shape by (rule conjI)
qed

text \<open>A text with upper case, punctuation, a double space, a stop-word and a short word.\<close>

theorem extractKeywords_idempotent_witness:
  "extractKeywords ''Disk  FULL, this disk-full!'' =
     [''disk'', ''full'', ''diskfull'']
   \<and> extractKeywords (join '' '' [''disk'', ''full'', ''diskfull'']) =
     [''disk'', ''full'', ''diskfull'']"
proof -
  have e: "extractKeywords ''Disk  FULL, this disk-full!'' =
     [''disk'', ''full'', ''diskfull'']"
    by code_simp
  from extractKeywords_idempotent
    [of "''Disk  FULL, this disk-full!''"]
  have "extractKeywords (join '' ''
          (extractKeywords ''Disk  FULL, this disk-full!'')) =
        extractKeywords ''Disk  FULL, this disk-full!''"
    by (rule conjunct1)
  then have "extractKeywords (join '' '' [''disk'', ''full'', ''diskfull'']) =
     [''disk'', ''full'', ''diskfull'']"
    unfolding e .
  with e show ?thesis by (rule conjI)
qed

section \<open>Fallback generation\<close>

lemma resolution_templates_nonempty:
  "infrastructureResolution i \<noteq> []" "applicationResolution i \<noteq> []"
  "databaseResolution i \<noteq> []" "networkResolution i \<noteq> []" "securityResolution i \<noteq> []"
  unfolding infrastructureResolution_def applicationResolution_def databaseResolution_def
    networkResolution_def securityResolution_def concat.simps
  by (simp_all only: append_is_Nil_conv list.distinct simp_thms)

lemma sop_templates_nonempty:
  "infrastructureSop i \<noteq> []" "applicationSop i \<noteq> []" "databaseSop i \<noteq> []"
  unfolding infrastructureSop_def applicationSop_def databaseSop_def concat.simps
  by (simp_all only: append_is_Nil_conv list.distinct simp_thms)


lemma getProperty_resolution_table:
  "getProperty [(''infrastructure'', a), (''application'', b), (''database'', c),
                (''network'', d), (''security'', e)] k =
     (if k = ''infrastructure'' then Own a
      else if k = ''application'' then Own b
      else if k = ''database'' then Own c
      else if k = ''network'' then Own d
      else if k = ''security'' then Own e
      else if k \<in> set objectPrototypeKeys then Inherited else Absent)"
  by (simp add: getProperty_def)

lemma getProperty_sop_table:
  "getProperty [(''infrastructure'', a), (''application'', b), (''database'', c)] k =
     (if k = ''infrastructure'' then Own a
      else if k = ''application'' then Own b
      else if k = ''database'' then Own c
      else if k \<in> set objectPrototypeKeys then Inherited else Absent)"
  by (simp add: getProperty_def)

lemma own_keys_not_inherited:
  "''infrastructure'' \<notin> set objectPrototypeKeys" "''application'' \<notin> set objectPrototypeKeys"
  "''database'' \<notin> set objectPrototypeKeys" "''network'' \<notin> set objectPrototypeKeys"
  "''security'' \<notin> set objectPrototypeKeys"
  by (simp_all add: objectPrototypeKeys_def)

lemma random_index:
  fixes random :: rat
  assumes "0 \<le> random" "random < 1"
  shows "elementAt [t] \<lfloor>random * of_nat (length [t])\<rfloor> = Str t"
proof -
  from assms have "\<lfloor>random * of_nat (length [t])\<rfloor> = 0" by (simp add: floor_eq_iff)
  then show ?thesis by (simp add: elementAt_def)
qed

text \<open>The template that the fallback chooses for a category.\<close>

lemma baseTemplate_cases:
  fixes random :: rat
  assumes "0 \<le> random" "random < 1"
  shows "(case getProperty
              [(''infrastructure'', [infrastructureResolution i]),
               (''application'', [applicationResolution i]),
               (''database'', [databaseResolution i]),
               (''network'', [networkResolution i]),
               (''security'', [securityResolution i])] (category i) of
            Own categoryTemplates \<Rightarrow>
              elementAt categoryTemplates \<lfloor>random * of_nat (length categoryTemplates)\<rfloor>
          | Inherited \<Rightarrow> Undefined
          | Absent \<Rightarrow>
              elementAt [infrastructureResolution i]
                \<lfloor>random * of_nat (length [infrastructureResolution i])\<rfloor>) =
         (if category i = ''infrastructure'' then Str (infrastructureResolution i)
          else if category i = ''application'' then Str (applicationResolution i)
          else if category i = ''database'' then Str (databaseResolution i)
          else if category i = ''network'' then Str (networkResolution i)
          else if category i = ''security'' then Str (securityResolution i)
          else if category i \<in> set objectPrototypeKeys then Undefined
          else Str (infrastructureResolution i))"
  unfolding getProperty_resolution_table
  by (simp only: random_index [OF assms] property.case if_distrib [of "case_property _ _ _"]
        split: if_splits)


lemma baseTemplate_text:
  assumes "category i \<notin> set objectPrototypeKeys"
  shows "\<exists>t. t \<noteq> [] \<and>
          (if category i = ''infrastructure'' then Str (infrastructureResolution i)
           else if category i = ''application'' then Str (applicationResolution i)
           else if category i = ''database'' then Str (databaseResolution i)
           else if category i = ''network'' then Str (networkResolution i)
           else if category i = ''security'' then Str (securityResolution i)
           else if category i \<in> set objectPrototypeKeys then Undefined
           else Str (infrastructureResolution i)) = Str t"
  using assms resolution_templates_nonempty [of i] by simp

lemma generateResolutionTemplate_eq:
  fixes random :: rat
  assumes "0 \<le> random" "random < 1"
  shows "generateResolutionTemplate random toString i relevantContent =
     (let baseTemplate =
            (if category i = ''infrastructure'' then Str (infrastructureResolution i)
             else if category i = ''application'' then Str (applicationResolution i)
             else if category i = ''database'' then Str (databaseResolution i)
             else if category i = ''network'' then Str (networkResolution i)
             else if category i = ''security'' then Str (securityResolution i)
             else if category i \<in> set objectPrototypeKeys then Undefined
             else Str (infrastructureResolution i))
      in if length relevantContent > 0
         then Str (concat
                [display baseTemplate, ''\<newline>'',
                 ''\<newline>'',
                 ''7. LEARNED FROM SIMILAR ISSUES\<newline>'',
                 ''   Based on analysis of '', toString (of_nat (length relevantContent)),
                 '' similar resolved issues:\<newline>'',
                 ''\<newline>'',
                 join ''\<newline>\<newline>''
                   (map (\<lambda>e. concat
                          [''Similar Issue Resolution (Rating: '', toString (averageRating (entry e)),
                           ''/5):\<newline>'', take 500 (content (entry e)), ''...''])
                      relevantContent), ''\<newline>'',
                 ''\<newline>'',
                 ''   Key patterns identified:\<newline>'',
                 ''   '',
                 join ''\<newline>   ''
                   (map (\<lambda>e. ''- '' @ join '', '' (slice0 (matchedKeywords e) 3)) relevantContent),
                 ''\<newline>'',
                 ''\<newline>'',
                 ''8. ENHANCED PREVENTION\<newline>'',
                 ''   - Apply lessons learned from similar incidents\<newline>'',
                 ''   - Implement proactive monitoring for identified patterns\<newline>'',
                 ''   - Update runbooks with successful resolution strategies''])
         else baseTemplate)"
  unfolding generateResolutionTemplate_def Let_def baseTemplate_cases [OF assms]
  by (rule refl)

lemma fallback_resolution_deterministic:
  fixes r1 r2 :: rat
  assumes "0 \<le> r1" "r1 < 1" "0 \<le> r2" "r2 < 1"
  shows "generateResolutionTemplate r1 toString i relevantContent =
         generateResolutionTemplate r2 toString i relevantContent"
  unfolding generateResolutionTemplate_eq [OF assms(1,2)] generateResolutionTemplate_eq [OF assms(3,4)]
  by (rule refl)

lemma fallback_resolution_text:
  fixes random :: rat
  assumes "0 \<le> random" "random < 1" "category i \<notin> set objectPrototypeKeys"
  shows "\<exists>t. t \<noteq> [] \<and> generateResolutionTemplate random toString i relevantContent = Str t"
proof (cases "length relevantContent > 0")
  case True
  then show ?thesis
    unfolding generateResolutionTemplate_eq [OF assms(1,2)] Let_def by simp
next
  case False
  with baseTemplate_text [OF assms(3)] show ?thesis
    unfolding generateResolutionTemplate_eq [OF assms(1,2)] Let_def by simp
qed

lemma fallback_resolution_default:
  fixes random :: rat
  assumes "0 \<le> random" "random < 1" "category i \<notin> set objectPrototypeKeys"
    and "category i \<notin> {''infrastructure'', ''application'', ''database'', ''network'', ''security''}"
  shows "generateResolutionTemplate random toString i [] = Str (infrastructureResolution i)"
  using assms(3,4) unfolding generateResolutionTemplate_eq [OF assms(1,2)] Let_def by simp

lemma fallback_sop_text:
  assumes "category i \<notin> set objectPrototypeKeys"
  shows "\<exists>t. t \<noteq> [] \<and> generateSOPTemplate i resolution = Str t"
  using assms sop_templates_nonempty [of i]
  unfolding generateSOPTemplate_def Let_def getProperty_sop_table by simp

lemma fallback_sop_default:
  assumes "category i \<notin> set objectPrototypeKeys"
    and "category i \<notin> {''infrastructure'', ''application'', ''database''}"
  shows "generateSOPTemplate i resolution = Str (infrastructureSop i)"
  using assms unfolding generateSOPTemplate_def Let_def getProperty_sop_table by simp

text \<open>
  C8. An issue whose category is \<open>constructor\<close>, a name that every object inherits: the
  lookup in the template table finds the inherited member, so the default template is not
  used. With the backend failing and nothing retrieved, the resolution fallback returns
  \<open>undefined\<close> and the SOP fallback returns an object, neither of them a text, and the
  resolution route answers with status 500 and writes nothing. For every category that is not
  such a name the fallbacks return a text that is not empty and does not depend on the random
  number (\<open>fallback_resolution_text\<close>, \<open>fallback_resolution_deterministic\<close>,
  \<open>fallback_sop_text\<close>), and an unknown one gets the infrastructure template
  (\<open>fallback_resolution_default\<close>, \<open>fallback_sop_default\<close>).
\<close>

theorem fallback_inherited_category:
  "generateResolutionTemplate random toString (exampleIssue\<lparr>category := ''constructor''\<rparr>) [] = Undefined
   \<and> generateSOPTemplate (exampleIssue\<lparr>category := ''constructor''\<rparr>) resolution = Object
   \<and> generate_resolution_POST None random toString now
         (exampleDb\<lparr>issues := [exampleIssue\<lparr>category := ''constructor''\<rparr>], aiResolutions := [],
                    knowledgeBase := []\<rparr>) (Some 0) =
       (Inl (Error 500 ''Failed to generate AI resolution''),
        exampleDb\<lparr>issues := [exampleIssue\<lparr>category := ''constructor''\<rparr>], aiResolutions := [],
                   knowledgeBase := []\<rparr>)"
proof -
  let ?i = "exampleIssue\<lparr>category := ''constructor''\<rparr>"
  have c: "category ?i = ''constructor''" by simp
  have p: "''constructor'' \<in> set objectPrototypeKeys" by (simp add: objectPrototypeKeys_def)
  have r: "generateResolutionTemplate random toString ?i [] = Undefined"
    unfolding generateResolutionTemplate_def Let_def getProperty_resolution_table c
    using p by simp
  have s: "generateSOPTemplate ?i resolution = Object"
    unfolding generateSOPTemplate_def Let_def getProperty_sop_table c
    using p by simp
  have k: "retrieveRelevantContent [] q = []" for q
    by (simp add: retrieveRelevantContent_def findManyKnowledge_def stableSortBy_def
          rankEntries_def slice0_def)
  have "generate_resolution_POST None random toString now
         (exampleDb\<lparr>issues := [?i], aiResolutions := [], knowledgeBase := []\<rparr>) (Some 0) =
       (Inl (Error 500 ''Failed to generate AI resolution''),
        exampleDb\<lparr>issues := [?i], aiResolutions := [], knowledgeBase := []\<rparr>)"
    by (simp add: generate_resolution_POST_def generateResolutionWithOllama_def k r Let_def)
  with r s show ?thesis by simp
qed

section \<open>Writes to the knowledge base\<close>

lemma length_incrementUsage: "length (incrementUsage kb i) = length kb"
  by (simp add: incrementUsage_def)

lemma length_foldl_incrementUsage: "length (foldl incrementUsage kb ids) = length kb"
  by (induction ids arbitrary: kb) (simp_all add: length_incrementUsage)

lemma nth_incrementUsage:
  "i < length kb \<Longrightarrow>
   incrementUsage kb j ! i =
     (if j = i then (kb ! i)\<lparr>usageCount := usageCount (kb ! i) + 1\<rparr> else kb ! i)"
  by (simp add: incrementUsage_def)

lemma nth_foldl_incrementUsage:
  "i < length kb \<Longrightarrow>
   foldl incrementUsage kb ids ! i =
     (kb ! i)\<lparr>usageCount := usageCount (kb ! i) + count_list ids i\<rparr>"
proof (induction ids arbitrary: kb)
  case Nil
  then show ?case by simp
next
  case (Cons j ids)
  from Cons.prems have "i < length (incrementUsage kb j)" by (simp add: length_incrementUsage)
  from Cons.IH [OF this] Cons.prems show ?case
    by (simp add: nth_incrementUsage)
qed

lemma count_list_distinct: "distinct xs \<Longrightarrow> count_list xs x = (if x \<in> set xs then 1 else 0)"
  by (induction xs) auto

lemma distinct_map_insertBy:
  "distinct (map f (insertBy precedes x xs)) \<longleftrightarrow> f x \<notin> f ` set xs \<and> distinct (map f xs)"
  by (induction xs) (auto simp: set_insertBy)

lemma distinct_map_stableSortBy:
  "distinct (map f (stableSortBy precedes xs)) \<longleftrightarrow> distinct (map f xs)"
proof (induction xs)
  case Nil
  show ?case by (simp add: stableSortBy_def)
next
  case (Cons x xs)
  have "stableSortBy precedes (x # xs) = insertBy precedes x (stableSortBy precedes xs)"
    by (simp add: stableSortBy_def)
  with Cons show ?case by (simp add: distinct_map_insertBy set_stableSortBy)
qed

lemma distinct_map_take: "distinct (map f xs) \<Longrightarrow> distinct (map f (take n xs))"
  by (simp add: take_map [symmetric] distinct_take)

lemma distinct_findManyKnowledge: "distinct (map fst (findManyKnowledge kb ct n))"
  unfolding findManyKnowledge_def
  by (intro distinct_map_take) (simp add: distinct_map_stableSortBy distinct_map_filter)

lemma entryId_scoreEntry: "map entryId (map (scoreEntry qk) rows) = map fst rows"
  by (simp add: scoreEntry_def)

lemma distinct_rankEntries:
  "distinct (map entryId es) \<Longrightarrow> distinct (map entryId (rankEntries es))"
  by (simp add: rankEntries_def distinct_map_stableSortBy distinct_map_filter)

lemma distinct_slice0: "distinct (map f xs) \<Longrightarrow> distinct (map f (slice0 xs limit))"
  by (simp add: slice0_def distinct_map_take)

lemma distinct_retrieve: "distinct (map entryId (retrieve kb query ct limit))"
  unfolding retrieve_def
  by (intro distinct_slice0 distinct_rankEntries)
     (simp only: entryId_scoreEntry distinct_findManyKnowledge)

lemma distinct_retrieveRelevantContent: "distinct (map entryId (retrieveRelevantContent kb query))"
  unfolding retrieveRelevantContent_def
  by (intro distinct_slice0 distinct_rankEntries)
     (simp only: entryId_scoreEntry distinct_findManyKnowledge)

lemma incrementUsages_distinct:
  assumes "distinct (map entryId es)"
  shows "length (incrementUsages kb es) = length kb
       \<and> (\<forall>i<length kb.
            incrementUsages kb es ! i =
              (if i \<in> entryId ` set es
               then (kb ! i)\<lparr>usageCount := usageCount (kb ! i) + 1\<rparr> else kb ! i))"
  using assms
  by (simp add: incrementUsages_def length_foldl_incrementUsage nth_foldl_incrementUsage
        count_list_distinct)


lemma retrieve_POST_cases:
  "(\<exists>e. retrieve_POST s query cto lo = (Inl e, s))
   \<or> (\<exists>es. distinct (map entryId es) \<and>
          retrieve_POST s query cto lo =
            (Inr es, s\<lparr>knowledgeBase := incrementUsages (knowledgeBase s) es\<rparr>))"
  by (simp add: retrieve_POST_def Let_def distinct_retrieve)

lemma retrieve_POST_usage_only:
  "length (knowledgeBase (snd (retrieve_POST s query cto lo))) = length (knowledgeBase s)
   \<and> (\<forall>i<length (knowledgeBase s).
         knowledgeBase (snd (retrieve_POST s query cto lo)) ! i =
           (if i \<in> (case fst (retrieve_POST s query cto lo) of
                       Inl e \<Rightarrow> {} | Inr es \<Rightarrow> entryId ` set es)
            then (knowledgeBase s ! i)\<lparr>usageCount := usageCount (knowledgeBase s ! i) + 1\<rparr>
            else knowledgeBase s ! i))"
  using retrieve_POST_cases [of s query cto lo]
proof (elim disjE exE conjE)
  fix e assume "retrieve_POST s query cto lo = (Inl e, s)"
  then show ?thesis by simp
next
  fix es assume d: "distinct (map entryId es)"
    and r: "retrieve_POST s query cto lo =
            (Inr es, s\<lparr>knowledgeBase := incrementUsages (knowledgeBase s) es\<rparr>)"
  from incrementUsages_distinct [OF d, of "knowledgeBase s"] show ?thesis
    unfolding r by simp
qed

lemma generate_resolution_POST_cases:
  "(\<exists>e. generate_resolution_POST ollama random toString now s issueIdOpt = (Inl e, s))
   \<or> (\<exists>res s1 es. distinct (map entryId es) \<and> knowledgeBase s1 = knowledgeBase s \<and>
          generate_resolution_POST ollama random toString now s issueIdOpt =
            (Inr (res, length es), s1\<lparr>knowledgeBase := incrementUsages (knowledgeBase s) es\<rparr>))"
proof (cases issueIdOpt)
  case None
  then show ?thesis by (simp add: generate_resolution_POST_def)
next
  case (Some iid)
  show ?thesis
  proof (cases "generateResolutionWithOllama ollama random toString (issues s ! iid)
      (retrieveRelevantContent (knowledgeBase s)
         (title (issues s ! iid) @ '' '' @ description (issues s ! iid)))")
    case (Str t)
    show ?thesis
    proof (cases "iid < length (issues s) \<and> \<not> (\<exists>r \<in> set (aiResolutions s). issueId r = iid)")
      case True
      let ?es = "retrieveRelevantContent (knowledgeBase s)
         (title (issues s ! iid) @ '' '' @ description (issues s ! iid))"
      let ?res = "\<lparr>issueId = iid, resolutionText = t,
                          modelUsed = ''llama3.1:8b (Ollama + RAG)'', generatedAt = now,
                          userRating = None, userFeedback = None\<rparr>"
      let ?s1 = "s\<lparr>aiResolutions := aiResolutions s @ [?res],
                    issues := (issues s)[iid := (issues s ! iid)\<lparr>status := ''in_progress''\<rparr>]\<rparr>"
      have "generate_resolution_POST ollama random toString now s issueIdOpt =
            (Inr (?res, length ?es), ?s1\<lparr>knowledgeBase := incrementUsages (knowledgeBase s) ?es\<rparr>)"
        using Some Str True by (simp add: generate_resolution_POST_def Let_def)
      moreover have "distinct (map entryId ?es)" by (rule distinct_retrieveRelevantContent)
      moreover have "knowledgeBase ?s1 = knowledgeBase s" by simp
      ultimately show ?thesis by blast
    next
      case False
      with Some show ?thesis by (auto simp: generate_resolution_POST_def)
    qed
  next
    case Undefined
    with Some show ?thesis by (simp add: generate_resolution_POST_def Let_def)
  next
    case Object
    with Some show ?thesis by (simp add: generate_resolution_POST_def Let_def)
  qed
qed


lemma generate_resolution_POST_usage_only:
  "length (knowledgeBase (snd (generate_resolution_POST ollama random toString now s issueIdOpt)))
     = length (knowledgeBase s)
   \<and> (\<forall>i<length (knowledgeBase s).
         knowledgeBase (snd (generate_resolution_POST ollama random toString now s issueIdOpt)) ! i
           = knowledgeBase s ! i
         \<or> knowledgeBase (snd (generate_resolution_POST ollama random toString now s issueIdOpt)) ! i
           = (knowledgeBase s ! i)\<lparr>usageCount := usageCount (knowledgeBase s ! i) + 1\<rparr>)"
  using generate_resolution_POST_cases [of ollama random toString now s issueIdOpt]
proof (elim disjE exE conjE)
  fix e assume "generate_resolution_POST ollama random toString now s issueIdOpt = (Inl e, s)"
  then show ?thesis by simp
next
  fix res s1 es assume d: "distinct (map entryId es)" and k: "knowledgeBase s1 = knowledgeBase s"
    and r: "generate_resolution_POST ollama random toString now s issueIdOpt =
            (Inr (res, length es), s1\<lparr>knowledgeBase := incrementUsages (knowledgeBase s) es\<rparr>)"
  from incrementUsages_distinct [OF d, of "knowledgeBase s"] show ?thesis
    unfolding r by simp
qed

lemma length_filter_update:
  "i < length xs \<Longrightarrow> P y = P (xs ! i) \<Longrightarrow>
   length (filter P (xs[i := y])) = length (filter P xs)"
proof (induction xs arbitrary: i)
  case Nil
  then show ?case by simp
next
  case (Cons x xs)
  then show ?case by (cases i) simp_all
qed

lemma filter_update_outside:
  "i < length xs \<Longrightarrow> \<not> Q y \<Longrightarrow> \<not> Q (xs ! i) \<Longrightarrow> filter Q (xs[i := y]) = filter Q xs"
proof (induction xs arbitrary: i)
  case Nil
  then show ?case by simp
next
  case (Cons x xs)
  then show ?case by (cases i) simp_all
qed

lemma createOrUpdateKbEntry_keyed:
  fixes body :: string
  defines "same \<equiv> \<lambda>e. content e = body \<and> contentType e = ''resolution''"
  shows "length (filter same (createOrUpdateKbEntry kb body r)) = max 1 (length (filter same kb))"
    and "filter (\<lambda>e. \<not> same e) (createOrUpdateKbEntry kb body r) = filter (\<lambda>e. \<not> same e) kb"
proof -
  show "length (filter same (createOrUpdateKbEntry kb body r)) = max 1 (length (filter same kb))"
  proof (cases "\<exists>e \<in> set kb. content e = body \<and> contentType e = ''resolution''")
    case True
    from createOrUpdateKbEntry_found [OF True, of r]
    obtain i where i: "i < length kb" "same (kb ! i)"
      and u: "createOrUpdateKbEntry kb body r =
             kb[i := (kb ! i)
                  \<lparr>usageCount := usageCount (kb ! i) + 1,
                   averageRating :=
                     (averageRating (kb ! i) * of_nat (usageCount (kb ! i)) + of_int r)
                     / of_nat (usageCount (kb ! i) + 1)\<rparr>]"
      unfolding same_def by blast
    from i have "kb ! i \<in> set (filter same kb)" by simp
    then have "1 \<le> length (filter same kb)"
      by (metis length_pos_if_in_set less_eq_Suc_le One_nat_def)
    moreover have "length (filter same (createOrUpdateKbEntry kb body r)) = length (filter same kb)"
      unfolding u using i by (intro length_filter_update) (simp_all add: same_def)
    ultimately show ?thesis by simp
  next
    case False
    then have n: "\<forall>e \<in> set kb. \<not> (content e = body \<and> contentType e = ''resolution'')" by blast
    then have "filter same kb = []" by (simp add: same_def)
    with createOrUpdateKbEntry_new [OF n, of r] show ?thesis by (simp add: same_def)
  qed
  show "filter (\<lambda>e. \<not> same e) (createOrUpdateKbEntry kb body r) = filter (\<lambda>e. \<not> same e) kb"
  proof (cases "\<exists>e \<in> set kb. content e = body \<and> contentType e = ''resolution''")
    case True
    from createOrUpdateKbEntry_found [OF True, of r]
    obtain i where i: "i < length kb" "same (kb ! i)"
      and u: "createOrUpdateKbEntry kb body r =
             kb[i := (kb ! i)
                  \<lparr>usageCount := usageCount (kb ! i) + 1,
                   averageRating :=
                     (averageRating (kb ! i) * of_nat (usageCount (kb ! i)) + of_int r)
                     / of_nat (usageCount (kb ! i) + 1)\<rparr>]"
      unfolding same_def by blast
    show ?thesis unfolding u using i by (intro filter_update_outside) (simp_all add: same_def)
  next
    case False
    then have n: "\<forall>e \<in> set kb. \<not> (content e = body \<and> contentType e = ''resolution'')" by blast
    with createOrUpdateKbEntry_new [OF n, of r] show ?thesis by (simp add: same_def)
  qed
qed


lemma rate_POST_keyed:
  assumes "4 \<le> r" "r \<le> 5" "resolutionId < length (aiResolutions s)"
  shows "length (filter (\<lambda>e. content e = resolutionText (aiResolutions s ! resolutionId)
                            \<and> contentType e = ''resolution'')
                   (knowledgeBase (snd (rate_POST s resolutionId r fb)))) =
         max 1 (length (filter (\<lambda>e. content e = resolutionText (aiResolutions s ! resolutionId)
                                    \<and> contentType e = ''resolution'') (knowledgeBase s)))
       \<and> filter (\<lambda>e. \<not> (content e = resolutionText (aiResolutions s ! resolutionId)
                            \<and> contentType e = ''resolution''))
            (knowledgeBase (snd (rate_POST s resolutionId r fb))) =
          filter (\<lambda>e. \<not> (content e = resolutionText (aiResolutions s ! resolutionId)
                            \<and> contentType e = ''resolution'')) (knowledgeBase s)"
  unfolding rate_POST_knowledgeBase [OF assms]
  using createOrUpdateKbEntry_keyed [where kb = "knowledgeBase s"
      and body = "resolutionText (aiResolutions s ! resolutionId)" and r = r]
  by (rule conjI)

lemma stableSortBy_head_newest:
  fixes f :: "'a \<Rightarrow> int"
  assumes "stableSortBy (\<lambda>y x. f y > f x) xs = b # bs"
  shows "b \<in> set xs \<and> (\<forall>x \<in> set xs. f x \<le> f b)"
  using assms
proof (induction xs arbitrary: b bs)
  case Nil
  then show ?case by (simp add: stableSortBy_def)
next
  case (Cons x xs)
  have step: "stableSortBy (\<lambda>y x. f y > f x) (x # xs) =
              insertBy (\<lambda>y x. f y > f x) x (stableSortBy (\<lambda>y x. f y > f x) xs)"
    by (simp add: stableSortBy_def)
  show ?case
  proof (cases "stableSortBy (\<lambda>y x. f y > f x) xs")
    case Nil
    then have "xs = []" by (simp add: stableSortBy_Nil_iff)
    with Cons.prems Nil step show ?thesis by simp
  next
    case inner: (Cons c cs)
    from Cons.IH [OF inner] have c: "c \<in> set xs" "\<forall>y \<in> set xs. f y \<le> f c" by blast+
    show ?thesis
    proof (cases "f c > f x")
      case True
      with Cons.prems step inner have "b = c" by simp
      with c True show ?thesis by auto
    next
      case False
      with Cons.prems step inner have "b = x" by simp
      with c False show ?thesis by force
    qed
  qed
qed

lemma ratedResolutions_head:
  assumes "ratedResolutions s iid = b # bs"
  shows "b \<in> set (aiResolutions s) \<and> issueId b = iid
       \<and> (\<exists>u. userRating b = Some u \<and> 4 \<le> u)
       \<and> (\<forall>x \<in> set (aiResolutions s).
            issueId x = iid \<longrightarrow> (\<forall>v. userRating x = Some v \<longrightarrow> 4 \<le> v \<longrightarrow>
              generatedAt x \<le> generatedAt b))"
proof -
  let ?rated = "filter (\<lambda>r. issueId r = iid \<and> (case userRating r of Some u \<Rightarrow> u \<ge> 4 | None \<Rightarrow> False))
                  (aiResolutions s)"
  from assms have "stableSortBy (\<lambda>y x. generatedAt y > generatedAt x) ?rated = b # bs"
    by (simp add: ratedResolutions_def)
  from stableSortBy_head_newest [OF this]
  have b: "b \<in> set ?rated" and m: "\<forall>x \<in> set ?rated. generatedAt x \<le> generatedAt b" by blast+
  from b have "b \<in> set (aiResolutions s)" "issueId b = iid" "\<exists>u. userRating b = Some u \<and> 4 \<le> u"
    by (auto split: option.splits)
  moreover have "\<forall>x \<in> set (aiResolutions s).
            issueId x = iid \<longrightarrow> (\<forall>v. userRating x = Some v \<longrightarrow> 4 \<le> v \<longrightarrow>
              generatedAt x \<le> generatedAt b)"
    using m by auto
  ultimately show ?thesis by blast
qed

lemma retrieve_POST_writes:
  "case fst (retrieve_POST s query cto lo) of
     Inl e \<Rightarrow> knowledgeBase (snd (retrieve_POST s query cto lo)) = knowledgeBase s
   | Inr es \<Rightarrow>
       length (knowledgeBase (snd (retrieve_POST s query cto lo))) = length (knowledgeBase s)
       \<and> (\<forall>i<length (knowledgeBase s).
            knowledgeBase (snd (retrieve_POST s query cto lo)) ! i =
              (if i \<in> entryId ` set es
               then (knowledgeBase s ! i)\<lparr>usageCount := usageCount (knowledgeBase s ! i) + 1\<rparr>
               else knowledgeBase s ! i))"
  using retrieve_POST_cases [of s query cto lo]
proof (elim disjE exE conjE)
  fix e assume "retrieve_POST s query cto lo = (Inl e, s)"
  then show ?thesis by simp
next
  fix es assume d: "distinct (map entryId es)"
    and r: "retrieve_POST s query cto lo =
            (Inr es, s\<lparr>knowledgeBase := incrementUsages (knowledgeBase s) es\<rparr>)"
  from incrementUsages_distinct [OF d, of "knowledgeBase s"] show ?thesis
    unfolding r by simp
qed

lemma generate_resolution_POST_result:
  "(\<exists>e. generate_resolution_POST ollama random toString now s issueIdOpt = (Inl e, s))
   \<or> (\<exists>iid res s1. issueIdOpt = Some iid \<and> iid < length (issues s)
         \<and> knowledgeBase s1 = knowledgeBase s
         \<and> generate_resolution_POST ollama random toString now s issueIdOpt =
             (Inr (res, length (retrieveRelevantContent (knowledgeBase s)
                                  (title (issues s ! iid) @ '' '' @ description (issues s ! iid)))),
              s1\<lparr>knowledgeBase :=
                   incrementUsages (knowledgeBase s)
                     (retrieveRelevantContent (knowledgeBase s)
                        (title (issues s ! iid) @ '' '' @ description (issues s ! iid)))\<rparr>))"
proof (cases issueIdOpt)
  case None
  then show ?thesis by (simp add: generate_resolution_POST_def)
next
  case (Some iid)
  let ?es = "retrieveRelevantContent (knowledgeBase s)
         (title (issues s ! iid) @ '' '' @ description (issues s ! iid))"
  show ?thesis
  proof (cases "generateResolutionWithOllama ollama random toString (issues s ! iid) ?es")
    case (Str t)
    show ?thesis
    proof (cases "iid < length (issues s) \<and> \<not> (\<exists>r \<in> set (aiResolutions s). issueId r = iid)")
      case True
      let ?res = "\<lparr>issueId = iid, resolutionText = t,
                          modelUsed = ''llama3.1:8b (Ollama + RAG)'', generatedAt = now,
                          userRating = None, userFeedback = None\<rparr>"
      let ?s1 = "s\<lparr>aiResolutions := aiResolutions s @ [?res],
                    issues := (issues s)[iid := (issues s ! iid)\<lparr>status := ''in_progress''\<rparr>]\<rparr>"
      have "generate_resolution_POST ollama random toString now s issueIdOpt =
            (Inr (?res, length ?es), ?s1\<lparr>knowledgeBase := incrementUsages (knowledgeBase s) ?es\<rparr>)"
        using Some Str True by (simp add: generate_resolution_POST_def Let_def)
      moreover have "knowledgeBase ?s1 = knowledgeBase s" by simp
      ultimately show ?thesis using Some True by blast
    next
      case False
      with Some show ?thesis by (auto simp: generate_resolution_POST_def)
    qed
  next
    case Undefined
    with Some show ?thesis by (simp add: generate_resolution_POST_def Let_def)
  next
    case Object
    with Some show ?thesis by (simp add: generate_resolution_POST_def Let_def)
  qed
qed

lemma generate_resolution_POST_writes:
  "case fst (generate_resolution_POST ollama random toString now s issueIdOpt) of
     Inl e \<Rightarrow>
       knowledgeBase (snd (generate_resolution_POST ollama random toString now s issueIdOpt)) =
         knowledgeBase s
   | Inr response \<Rightarrow>
       (\<exists>iid. issueIdOpt = Some iid \<and> iid < length (issues s)
          \<and> snd response =
               length (retrieveRelevantContent (knowledgeBase s)
                         (title (issues s ! iid) @ '' '' @ description (issues s ! iid)))
          \<and> length (knowledgeBase
                 (snd (generate_resolution_POST ollama random toString now s issueIdOpt))) =
               length (knowledgeBase s)
          \<and> (\<forall>i<length (knowledgeBase s).
               knowledgeBase
                 (snd (generate_resolution_POST ollama random toString now s issueIdOpt)) ! i =
                 (if i \<in> entryId ` set (retrieveRelevantContent (knowledgeBase s)
                         (title (issues s ! iid) @ '' '' @ description (issues s ! iid)))
                  then (knowledgeBase s ! i)\<lparr>usageCount := usageCount (knowledgeBase s ! i) + 1\<rparr>
                  else knowledgeBase s ! i)))"
  using generate_resolution_POST_result [of ollama random toString now s issueIdOpt]
proof (elim disjE exE conjE)
  fix e assume "generate_resolution_POST ollama random toString now s issueIdOpt = (Inl e, s)"
  then show ?thesis by simp
next
  fix iid res s1
  assume i: "issueIdOpt = Some iid" "iid < length (issues s)"
    and k: "knowledgeBase s1 = knowledgeBase s"
    and r: "generate_resolution_POST ollama random toString now s issueIdOpt =
             (Inr (res, length (retrieveRelevantContent (knowledgeBase s)
                                  (title (issues s ! iid) @ '' '' @ description (issues s ! iid)))),
              s1\<lparr>knowledgeBase :=
                   incrementUsages (knowledgeBase s)
                     (retrieveRelevantContent (knowledgeBase s)
                        (title (issues s ! iid) @ '' '' @ description (issues s ! iid)))\<rparr>)"
  from incrementUsages_distinct [OF distinct_retrieveRelevantContent, of "knowledgeBase s"
      "knowledgeBase s" "title (issues s ! iid) @ '' '' @ description (issues s ! iid)"] i
  show ?thesis unfolding r by simp
qed

lemma generate_sop_POST_writes:
  "case fst (generate_sop_POST ollama now s issueIdOpt) of
     Inl e \<Rightarrow> knowledgeBase (snd (generate_sop_POST ollama now s issueIdOpt)) = knowledgeBase s
   | Inr sop \<Rightarrow>
       (\<exists>b bs u. issueIdOpt = Some (sopIssueId sop)
          \<and> ratedResolutions s (sopIssueId sop) = b # bs \<and> userRating b = Some u
          \<and> knowledgeBase (snd (generate_sop_POST ollama now s issueIdOpt)) =
              knowledgeBase s @
                [\<lparr>content = sopText sop, contentType = ''sop'', averageRating = of_int u,
                  usageCount = 1\<rparr>])"
proof (cases issueIdOpt)
  case None
  then show ?thesis by (simp add: generate_sop_POST_def)
next
  case (Some iid)
  show ?thesis
  proof (cases "ratedResolutions s iid")
    case Nil
    with Some show ?thesis by (simp add: generate_sop_POST_def)
  next
    case (Cons b bs)
    from ratedResolutions_head [OF Cons] obtain u where u: "userRating b = Some u" "4 \<le> u"
      by blast
    show ?thesis
    proof (cases "generateSOPWithOllama ollama (issues s ! iid) (resolutionText b)")
      case (Str t)
      show ?thesis
      proof (cases "iid < length (issues s) \<and> status (issues s ! iid) = ''resolved''
                    \<and> \<not> (\<exists>p \<in> set (aiSops s). sopIssueId p = iid)")
        case True
        with Some Cons Str u show ?thesis
          by (simp add: generate_sop_POST_def Let_def)
      next
        case False
        with Some Cons show ?thesis by (auto simp: generate_sop_POST_def)
      qed
    next
      case Undefined
      with Some Cons show ?thesis by (simp add: generate_sop_POST_def Let_def)
    next
      case Object
      with Some Cons show ?thesis by (simp add: generate_sop_POST_def Let_def)
    qed
  qed
qed

lemma generate_sop_POST_newest:
  "case fst (generate_sop_POST ollama now s issueIdOpt) of
     Inl e \<Rightarrow> knowledgeBase (snd (generate_sop_POST ollama now s issueIdOpt)) = knowledgeBase s
   | Inr sop \<Rightarrow>
       (\<exists>b u. issueIdOpt = Some (sopIssueId sop)
          \<and> take 1 (ratedResolutions s (sopIssueId sop)) = [b]
          \<and> b \<in> set (aiResolutions s) \<and> issueId b = sopIssueId sop
          \<and> userRating b = Some u \<and> 4 \<le> u
          \<and> (\<forall>x \<in> set (aiResolutions s).
                issueId x = sopIssueId sop \<longrightarrow>
                (\<forall>v. userRating x = Some v \<longrightarrow> 4 \<le> v \<longrightarrow> generatedAt x \<le> generatedAt b))
          \<and> knowledgeBase (snd (generate_sop_POST ollama now s issueIdOpt)) =
              knowledgeBase s @
                [\<lparr>content = sopText sop, contentType = ''sop'', averageRating = of_int u,
                  usageCount = 1\<rparr>])"
proof (cases "fst (generate_sop_POST ollama now s issueIdOpt)")
  case (Inl e)
  with generate_sop_POST_writes [of ollama now s issueIdOpt] show ?thesis by simp
next
  case (Inr sop)
  with generate_sop_POST_writes [of ollama now s issueIdOpt]
  obtain b bs u where w: "issueIdOpt = Some (sopIssueId sop)"
    "ratedResolutions s (sopIssueId sop) = b # bs" "userRating b = Some u"
    "knowledgeBase (snd (generate_sop_POST ollama now s issueIdOpt)) =
              knowledgeBase s @
                [\<lparr>content = sopText sop, contentType = ''sop'', averageRating = of_int u,
                  usageCount = 1\<rparr>]"
    by auto
  from ratedResolutions_head [OF w(2)] w(3)
  have h: "b \<in> set (aiResolutions s)" "issueId b = sopIssueId sop" "4 \<le> u"
    "\<forall>x \<in> set (aiResolutions s).
                issueId x = sopIssueId sop \<longrightarrow>
                (\<forall>v. userRating x = Some v \<longrightarrow> 4 \<le> v \<longrightarrow> generatedAt x \<le> generatedAt b)"
    by auto
  from w(2) have "take 1 (ratedResolutions s (sopIssueId sop)) = [b]" by simp
  with w h show ?thesis unfolding Inr by (simp only: sum.case) blast
qed

text \<open>
  C1 (amended). What each route writes to the knowledge base.
  \<^item> Retrieval that answers with a list of entries adds one to the usage count of exactly the
    entries in the list and changes nothing else; when it answers with an error the knowledge
    base is as before.
  \<^item> Resolution generation that succeeds adds one to the usage count of exactly the entries it
    has retrieved for the title and description of the issue (their number is in the
    response) and changes nothing else; when it answers with an error the knowledge base is
    as before.
  \<^item> SOP generation that succeeds appends exactly one entry: its content is the text of the new
    SOP, its type is \<open>sop\<close>, its usage count is 1, and its average is the rating \<open>u \<ge> 4\<close> of
    the resolution \<open>b\<close> the route works from, which is the first of the issue's resolutions
    rated 4 or more in the order newest first, so none of them is newer. No entry with the
    same content is looked for. When it answers with an error the knowledge base is as before.
  \<^item> The rating route with a rating of 4 or 5 is keyed by the content: afterwards the number of
    \<open>resolution\<close> entries with the rated text is what it was, or 1 when there was none, and all
    other entries are as before.
  So only the rating route changes an average or adds a \<open>resolution\<close> entry.
\<close>

theorem knowledge_base_write_paths:
  "(case fst (retrieve_POST s query cto lo) of
      Inl e \<Rightarrow> knowledgeBase (snd (retrieve_POST s query cto lo)) = knowledgeBase s
    | Inr es \<Rightarrow>
        length (knowledgeBase (snd (retrieve_POST s query cto lo))) = length (knowledgeBase s)
        \<and> (\<forall>i<length (knowledgeBase s).
             knowledgeBase (snd (retrieve_POST s query cto lo)) ! i =
               (if i \<in> entryId ` set es
                then (knowledgeBase s ! i)\<lparr>usageCount := usageCount (knowledgeBase s ! i) + 1\<rparr>
                else knowledgeBase s ! i)))
   \<and> (case fst (generate_resolution_POST ollama random toString now s issueIdOpt) of
        Inl e \<Rightarrow>
          knowledgeBase (snd (generate_resolution_POST ollama random toString now s issueIdOpt)) =
            knowledgeBase s
      | Inr response \<Rightarrow>
          (\<exists>iid. issueIdOpt = Some iid \<and> iid < length (issues s)
             \<and> snd response =
                  length (retrieveRelevantContent (knowledgeBase s)
                            (title (issues s ! iid) @ '' '' @ description (issues s ! iid)))
             \<and> length (knowledgeBase
                    (snd (generate_resolution_POST ollama random toString now s issueIdOpt))) =
                  length (knowledgeBase s)
             \<and> (\<forall>i<length (knowledgeBase s).
                  knowledgeBase
                    (snd (generate_resolution_POST ollama random toString now s issueIdOpt)) ! i =
                    (if i \<in> entryId ` set (retrieveRelevantContent (knowledgeBase s)
                            (title (issues s ! iid) @ '' '' @ description (issues s ! iid)))
                     then (knowledgeBase s ! i)
                            \<lparr>usageCount := usageCount (knowledgeBase s ! i) + 1\<rparr>
                     else knowledgeBase s ! i))))
   \<and> (case fst (generate_sop_POST ollama' now' s issueIdOpt') of
        Inl e \<Rightarrow> knowledgeBase (snd (generate_sop_POST ollama' now' s issueIdOpt')) = knowledgeBase s
      | Inr sop \<Rightarrow>
          (\<exists>b u. issueIdOpt' = Some (sopIssueId sop)
             \<and> take 1 (ratedResolutions s (sopIssueId sop)) = [b]
             \<and> b \<in> set (aiResolutions s) \<and> issueId b = sopIssueId sop
             \<and> userRating b = Some u \<and> 4 \<le> u
             \<and> (\<forall>x \<in> set (aiResolutions s).
                   issueId x = sopIssueId sop \<longrightarrow>
                   (\<forall>v. userRating x = Some v \<longrightarrow> 4 \<le> v \<longrightarrow> generatedAt x \<le> generatedAt b))
             \<and> knowledgeBase (snd (generate_sop_POST ollama' now' s issueIdOpt')) =
                 knowledgeBase s @
                   [\<lparr>content = sopText sop, contentType = ''sop'', averageRating = of_int u,
                     usageCount = 1\<rparr>]))
   \<and> (4 \<le> r \<and> r \<le> 5 \<and> resolutionId < length (aiResolutions s) \<longrightarrow>
        length (filter (\<lambda>e. content e = resolutionText (aiResolutions s ! resolutionId)
                            \<and> contentType e = ''resolution'')
                   (knowledgeBase (snd (rate_POST s resolutionId r fb)))) =
          max 1 (length (filter (\<lambda>e. content e = resolutionText (aiResolutions s ! resolutionId)
                                    \<and> contentType e = ''resolution'') (knowledgeBase s)))
        \<and> filter (\<lambda>e. \<not> (content e = resolutionText (aiResolutions s ! resolutionId)
                            \<and> contentType e = ''resolution''))
             (knowledgeBase (snd (rate_POST s resolutionId r fb))) =
           filter (\<lambda>e. \<not> (content e = resolutionText (aiResolutions s ! resolutionId)
                            \<and> contentType e = ''resolution'')) (knowledgeBase s))"
  apply (intro conjI)
     apply (rule retrieve_POST_writes)
    apply (rule generate_resolution_POST_writes)
   apply (rule generate_sop_POST_newest)
  apply (rule impI)
  apply (rule rate_POST_keyed)
    apply simp_all
  done

text \<open>Retrieval changes the usage count of the example entry, and SOP generation adds a second
  entry with the content of an entry that exists.\<close>

theorem other_routes_write_counterexample:
  "knowledgeBase (snd (retrieve_POST exampleDb ''database connection'' None None)) =
     [exampleEntry\<lparr>usageCount := 2\<rparr>]
   \<and> knowledgeBase (snd (retrieve_POST exampleDb ''database connection'' None None)) \<noteq>
     knowledgeBase exampleDb
   \<and> knowledgeBase (snd (generate_sop_POST (Some ''Restart procedure'') 40
         (exampleDb\<lparr>knowledgeBase := [exampleSopEntry]\<rparr>) (Some 0))) =
     [exampleSopEntry, exampleSopEntry]"
  by code_simp

text \<open>The example store: retrieval returns its entry and raises the usage count by one;
  resolution generation is refused there and writes nothing, and on the store without the
  resolution it succeeds and raises the usage count of the retrieved entry; SOP generation
  appends the entry with the rating 4 of the resolution; and a rating of 5 leaves one entry
  with the rated text.\<close>

theorem knowledge_base_write_paths_witness:
  "knowledgeBase exampleDb = [exampleEntry]
   \<and> map entryId (projr (fst (retrieve_POST exampleDb ''database connection'' None None))) = [0]
   \<and> knowledgeBase (snd (retrieve_POST exampleDb ''database connection'' None None)) ! 0 =
       exampleEntry\<lparr>usageCount := usageCount exampleEntry + 1\<rparr>
   \<and> isl (fst (generate_resolution_POST (Some ''Restart the pool'') 0 (\<lambda>x. ''4'') 40 exampleDb
               (Some 0)))
   \<and> knowledgeBase (snd (generate_resolution_POST (Some ''Restart the pool'') 0 (\<lambda>x. ''4'') 40
         exampleDb (Some 0))) = [exampleEntry]
   \<and> fst (generate_resolution_POST (Some ''Restart the pool'') 0 (\<lambda>x. ''4'') 40
           (exampleDb\<lparr>aiResolutions := []\<rparr>) (Some 0)) =
       Inr (\<lparr>issueId = 0, resolutionText = ''Restart the pool'',
              modelUsed = ''llama3.1:8b (Ollama + RAG)'', generatedAt = 40,
              userRating = None, userFeedback = None\<rparr>, 1)
   \<and> knowledgeBase (snd (generate_resolution_POST (Some ''Restart the pool'') 0 (\<lambda>x. ''4'') 40
         (exampleDb\<lparr>aiResolutions := []\<rparr>) (Some 0))) ! 0 =
       exampleEntry\<lparr>usageCount := usageCount exampleEntry + 1\<rparr>
   \<and> fst (generate_sop_POST (Some ''Restart procedure'') 40 exampleDb (Some 0)) =
       Inr \<lparr>sopIssueId = 0, sopText = ''Restart procedure'', sopGeneratedAt = 40\<rparr>
   \<and> knowledgeBase (snd (generate_sop_POST (Some ''Restart procedure'') 40 exampleDb (Some 0))) =
       [exampleEntry, exampleSopEntry]
   \<and> (4::int) \<le> 5 \<and> (5::int) \<le> 5 \<and> (0::nat) < length (aiResolutions exampleDb)
   \<and> length (filter (\<lambda>e. content e = resolutionText (aiResolutions exampleDb ! 0)
                            \<and> contentType e = ''resolution'')
                   (knowledgeBase (snd (rate_POST exampleDb 0 5 None)))) = 1"
proof -
  note T = knowledge_base_write_paths [of exampleDb "''database connection''" None None
      "Some ''Restart the pool''" 0 "\<lambda>x. ''4''" 40 "Some 0"
      "Some ''Restart procedure''" 40 "Some 0" 5 0 None]
  have kb: "knowledgeBase exampleDb = [exampleEntry]" by (simp add: exampleDb_def)
  have f1: "fst (retrieve_POST exampleDb ''database connection'' None None) =
      Inr [\<lparr>entryId = 0, entry = exampleEntry, similarityScore = Num 0.55,
             matchedKeywords = [''database'', ''connection'']\<rparr>]"
    by code_simp
  have f2: "fst (generate_resolution_POST (Some ''Restart the pool'') 0 (\<lambda>x. ''4'') 40 exampleDb
               (Some 0)) = Inl (Error 400 ''Resolution already exists for this issue'')"
    by (simp add: generate_resolution_POST_def exampleDb_def exampleResolution_def)
  note T2 = knowledge_base_write_paths [of "exampleDb\<lparr>aiResolutions := []\<rparr>"
      "''database connection''" None None
      "Some ''Restart the pool''" 0 "\<lambda>x. ''4''" 40 "Some 0"
      "Some ''Restart procedure''" 40 "Some 0" 5 0 None]
  have f5: "fst (generate_resolution_POST (Some ''Restart the pool'') 0 (\<lambda>x. ''4'') 40
           (exampleDb\<lparr>aiResolutions := []\<rparr>) (Some 0)) =
       Inr (\<lparr>issueId = 0, resolutionText = ''Restart the pool'',
              modelUsed = ''llama3.1:8b (Ollama + RAG)'', generatedAt = 40,
              userRating = None, userFeedback = None\<rparr>, 1)"
    by code_simp
  have f6: "map entryId (retrieveRelevantContent [exampleEntry]
              (title exampleIssue @ '' '' @ description exampleIssue)) = [0]"
    by code_simp
  have f7: "entryId ` set (retrieveRelevantContent [exampleEntry]
              (title exampleIssue @ '' '' @ description exampleIssue)) = {0}"
    using arg_cong [OF f6, of set] by simp
  from T2 have g2: "knowledgeBase (snd (generate_resolution_POST (Some ''Restart the pool'') 0
         (\<lambda>x. ''4'') 40 (exampleDb\<lparr>aiResolutions := []\<rparr>) (Some 0))) ! 0 =
       exampleEntry\<lparr>usageCount := usageCount exampleEntry + 1\<rparr>"
    unfolding f5 using f7 by (simp add: exampleDb_def)
  have f3: "fst (generate_sop_POST (Some ''Restart procedure'') 40 exampleDb (Some 0)) =
       Inr \<lparr>sopIssueId = 0, sopText = ''Restart procedure'', sopGeneratedAt = 40\<rparr>"
    by code_simp
  have f4: "ratedResolutions exampleDb 0 = [exampleResolution]"
    by (simp add: ratedResolutions_def exampleDb_def exampleResolution_def stableSortBy_def)
  have h: "(4::int) \<le> 5 \<and> (5::int) \<le> 5 \<and> (0::nat) < length (aiResolutions exampleDb)"
    by (simp add: exampleDb_def)
  have c: "length (filter (\<lambda>e. content e = resolutionText (aiResolutions exampleDb ! 0)
                            \<and> contentType e = ''resolution'') (knowledgeBase exampleDb)) = 1"
    by (simp add: exampleDb_def exampleEntry_def exampleResolution_def)
  from T have r: "knowledgeBase (snd (retrieve_POST exampleDb ''database connection'' None None)) ! 0 =
       exampleEntry\<lparr>usageCount := usageCount exampleEntry + 1\<rparr>"
    unfolding f1 by (simp add: kb)
  from T have g: "knowledgeBase (snd (generate_resolution_POST (Some ''Restart the pool'') 0
         (\<lambda>x. ''4'') 40 exampleDb (Some 0))) = [exampleEntry]"
    unfolding f2 by (simp add: kb)
  from T have p: "knowledgeBase (snd (generate_sop_POST (Some ''Restart procedure'') 40 exampleDb
         (Some 0))) = [exampleEntry, exampleSopEntry]"
    unfolding f3 by (auto simp: kb f4 exampleResolution_def exampleSopEntry_def)
  from T h c have k: "length (filter (\<lambda>e. content e = resolutionText (aiResolutions exampleDb ! 0)
                            \<and> contentType e = ''resolution'')
                   (knowledgeBase (snd (rate_POST exampleDb 0 5 None)))) = 1"
    by simp
  from kb f1 r f2 g f5 g2 f3 p h k show ?thesis by simp
qed

section \<open>The stored average\<close>

lemma retrieve_POST_usage_step:
  "length (knowledgeBase (snd (retrieve_POST s query cto lo))) = length (knowledgeBase s)
   \<and> (\<forall>i<length (knowledgeBase s).
         knowledgeBase (snd (retrieve_POST s query cto lo)) ! i = knowledgeBase s ! i
         \<or> knowledgeBase (snd (retrieve_POST s query cto lo)) ! i
           = (knowledgeBase s ! i)\<lparr>usageCount := usageCount (knowledgeBase s ! i) + 1\<rparr>)"
  using retrieve_POST_usage_only [of s query cto lo] by presburger

lemma running_average_range:
  fixes a :: rat and n :: nat and r :: int
  assumes "1 \<le> a" "a \<le> 5" "1 \<le> r" "r \<le> 5"
  shows "1 \<le> (a * of_nat n + of_int r) / of_nat (n + 1)"
    and "(a * of_nat n + of_int r) / of_nat (n + 1) \<le> 5"
proof -
  have p: "(0::rat) < of_nat (n + 1)" by simp
  have r: "(1::rat) \<le> of_int r" "(of_int r :: rat) \<le> 5" using assms(3,4) by simp_all
  have lo: "(of_nat n :: rat) \<le> a * of_nat n"
    using assms(1) by (simp add: mult_le_cancel_right1)
  have hi: "a * of_nat n \<le> 5 * (of_nat n :: rat)"
    using assms(2) by (simp add: mult_right_mono)
  have "1 * (of_nat (n + 1) :: rat) \<le> a * of_nat n + of_int r" using lo r(1) by simp
  then show "1 \<le> (a * of_nat n + of_int r) / of_nat (n + 1)"
    using p by (simp only: le_divide_eq if_P)
  have "a * of_nat n + of_int r \<le> 5 * (of_nat (n + 1) :: rat)" using hi r(2) by simp
  then show "(a * of_nat n + of_int r) / of_nat (n + 1) \<le> 5"
    using p by (simp only: divide_le_eq if_P)
qed

lemma createOrUpdateKbEntry_range:
  assumes kb: "\<forall>e \<in> set kb. 1 \<le> averageRating e \<and> averageRating e \<le> 5"
    and r: "1 \<le> r" "r \<le> 5"
  shows "\<forall>e \<in> set (createOrUpdateKbEntry kb body r). 1 \<le> averageRating e \<and> averageRating e \<le> 5"
proof (cases "\<exists>e \<in> set kb. content e = body \<and> contentType e = ''resolution''")
  case True
  from createOrUpdateKbEntry_found [OF True, of r]
  obtain i where i: "i < length kb"
    and u: "createOrUpdateKbEntry kb body r =
             kb[i := (kb ! i)
                  \<lparr>usageCount := usageCount (kb ! i) + 1,
                   averageRating :=
                     (averageRating (kb ! i) * of_nat (usageCount (kb ! i)) + of_int r)
                     / of_nat (usageCount (kb ! i) + 1)\<rparr>]"
    by blast
  from kb i have a: "1 \<le> averageRating (kb ! i)" "averageRating (kb ! i) \<le> 5" by simp_all
  show ?thesis
  proof
    fix e assume "e \<in> set (createOrUpdateKbEntry kb body r)"
    then have "e \<in> set kb \<or> e = (kb ! i)
                  \<lparr>usageCount := usageCount (kb ! i) + 1,
                   averageRating :=
                     (averageRating (kb ! i) * of_nat (usageCount (kb ! i)) + of_int r)
                     / of_nat (usageCount (kb ! i) + 1)\<rparr>"
      unfolding u using set_update_subset_insert [of kb i] by blast
    then show "1 \<le> averageRating e \<and> averageRating e \<le> 5"
    proof
      assume "e \<in> set kb"
      with kb show ?thesis by blast
    next
      assume "e = (kb ! i)
                  \<lparr>usageCount := usageCount (kb ! i) + 1,
                   averageRating :=
                     (averageRating (kb ! i) * of_nat (usageCount (kb ! i)) + of_int r)
                     / of_nat (usageCount (kb ! i) + 1)\<rparr>"
      then have "averageRating e =
          (averageRating (kb ! i) * of_nat (usageCount (kb ! i)) + of_int r)
                     / of_nat (usageCount (kb ! i) + 1)" by simp
      with running_average_range [OF a r, of "usageCount (kb ! i)"] show ?thesis by simp
    qed
  qed
next
  case False
  then have n: "\<forall>e \<in> set kb. \<not> (content e = body \<and> contentType e = ''resolution'')" by blast
  from kb r show ?thesis unfolding createOrUpdateKbEntry_new [OF n, of r] by simp
qed


lemma usage_step_range:
  assumes "length kb' = length kb"
    and "\<forall>i<length kb. kb' ! i = kb ! i
           \<or> kb' ! i = (kb ! i)\<lparr>usageCount := usageCount (kb ! i) + 1\<rparr>"
    and "\<forall>e \<in> set kb. 1 \<le> averageRating e \<and> averageRating e \<le> 5"
  shows "\<forall>e \<in> set kb'. 1 \<le> averageRating e \<and> averageRating e \<le> 5"
proof
  fix e assume "e \<in> set kb'"
  then obtain i where i: "i < length kb'" "e = kb' ! i" by (auto simp: in_set_conv_nth)
  with assms(1) have il: "i < length kb" by simp
  then have "kb ! i \<in> set kb" by simp
  with assms(3) have a: "1 \<le> averageRating (kb ! i) \<and> averageRating (kb ! i) \<le> 5" by blast
  from assms(2) il have "averageRating (kb' ! i) = averageRating (kb ! i)" by auto
  with a i(2) show "1 \<le> averageRating e \<and> averageRating e \<le> 5" by simp
qed

lemma retrieve_POST_range:
  assumes "\<forall>e \<in> set (knowledgeBase s). 1 \<le> averageRating e \<and> averageRating e \<le> 5"
  shows "\<forall>e \<in> set (knowledgeBase (snd (retrieve_POST s query cto lo))).
           1 \<le> averageRating e \<and> averageRating e \<le> 5"
    and "aiResolutions (snd (retrieve_POST s query cto lo)) = aiResolutions s"
proof -
  from retrieve_POST_usage_step [of s query cto lo]
  have a: "length (knowledgeBase (snd (retrieve_POST s query cto lo))) = length (knowledgeBase s)"
    and b: "\<forall>i<length (knowledgeBase s).
         knowledgeBase (snd (retrieve_POST s query cto lo)) ! i = knowledgeBase s ! i
         \<or> knowledgeBase (snd (retrieve_POST s query cto lo)) ! i
           = (knowledgeBase s ! i)\<lparr>usageCount := usageCount (knowledgeBase s ! i) + 1\<rparr>"
    by blast+
  show "\<forall>e \<in> set (knowledgeBase (snd (retrieve_POST s query cto lo))).
           1 \<le> averageRating e \<and> averageRating e \<le> 5"
    by (rule usage_step_range [OF a b assms])
  show "aiResolutions (snd (retrieve_POST s query cto lo)) = aiResolutions s"
    by (simp add: retrieve_POST_def Let_def)
qed

lemma rate_POST_knowledgeBase_cases:
  "knowledgeBase (snd (rate_POST s resolutionId r fb)) =
     (if 4 \<le> r \<and> r \<le> 5 \<and> resolutionId < length (aiResolutions s)
      then createOrUpdateKbEntry (knowledgeBase s)
             (resolutionText (aiResolutions s ! resolutionId)) r
      else knowledgeBase s)"
  by (simp add: rate_POST_def Let_def)

lemma rate_POST_resolutions:
  "aiResolutions (snd (rate_POST s resolutionId r fb)) =
     (if 1 \<le> r \<and> r \<le> 5 \<and> resolutionId < length (aiResolutions s)
      then (aiResolutions s)
             [resolutionId := (aiResolutions s ! resolutionId)
                                \<lparr>userRating := Some r, userFeedback := orNull fb\<rparr>]
      else aiResolutions s)"
  by (auto simp: rate_POST_def Let_def)

lemma rate_POST_range:
  assumes k: "\<forall>e \<in> set (knowledgeBase s). 1 \<le> averageRating e \<and> averageRating e \<le> 5"
    and u: "\<forall>x \<in> set (aiResolutions s). \<forall>u. userRating x = Some u \<longrightarrow> 1 \<le> u \<and> u \<le> 5"
  shows "\<forall>e \<in> set (knowledgeBase (snd (rate_POST s resolutionId r fb))).
           1 \<le> averageRating e \<and> averageRating e \<le> 5"
    and "\<forall>x \<in> set (aiResolutions (snd (rate_POST s resolutionId r fb))).
           \<forall>u. userRating x = Some u \<longrightarrow> 1 \<le> u \<and> u \<le> 5"
proof -
  show "\<forall>e \<in> set (knowledgeBase (snd (rate_POST s resolutionId r fb))).
           1 \<le> averageRating e \<and> averageRating e \<le> 5"
  proof (cases "4 \<le> r \<and> r \<le> 5 \<and> resolutionId < length (aiResolutions s)")
    case True
    then have "1 \<le> r" "r \<le> 5" by simp_all
    from createOrUpdateKbEntry_range [OF k this] show ?thesis
      unfolding rate_POST_knowledgeBase_cases if_P [OF True] .
  next
    case False
    from k show ?thesis unfolding rate_POST_knowledgeBase_cases if_not_P [OF False] .
  qed
  show "\<forall>x \<in> set (aiResolutions (snd (rate_POST s resolutionId r fb))).
           \<forall>u. userRating x = Some u \<longrightarrow> 1 \<le> u \<and> u \<le> 5"
  proof (cases "1 \<le> r \<and> r \<le> 5 \<and> resolutionId < length (aiResolutions s)")
    case True
    show ?thesis
    proof
      fix x assume "x \<in> set (aiResolutions (snd (rate_POST s resolutionId r fb)))"
      then have "x \<in> set (aiResolutions s)
          \<or> x = (aiResolutions s ! resolutionId)\<lparr>userRating := Some r, userFeedback := orNull fb\<rparr>"
        unfolding rate_POST_resolutions if_P [OF True]
        using set_update_subset_insert [of "aiResolutions s" resolutionId]
        by blast
      then show "\<forall>u. userRating x = Some u \<longrightarrow> 1 \<le> u \<and> u \<le> 5"
        using u True by auto
    qed
  next
    case False
    from u show ?thesis unfolding rate_POST_resolutions if_not_P [OF False] .
  qed
qed

lemma generate_resolution_POST_resolutions:
  "aiResolutions (snd (generate_resolution_POST ollama random toString now s issueIdOpt))
     = aiResolutions s
   \<or> (\<exists>x. userRating x = None \<and>
          aiResolutions (snd (generate_resolution_POST ollama random toString now s issueIdOpt))
            = aiResolutions s @ [x])"
  using generate_resolution_POST_cases [of ollama random toString now s issueIdOpt]
  by (auto simp: generate_resolution_POST_def Let_def
           split: option.splits if_splits jsvalue.splits)

lemma generate_resolution_POST_range:
  assumes k: "\<forall>e \<in> set (knowledgeBase s). 1 \<le> averageRating e \<and> averageRating e \<le> 5"
    and u: "\<forall>x \<in> set (aiResolutions s). \<forall>u. userRating x = Some u \<longrightarrow> 1 \<le> u \<and> u \<le> 5"
  shows "\<forall>e \<in> set (knowledgeBase (snd (generate_resolution_POST ollama random toString now s
                                           issueIdOpt))).
           1 \<le> averageRating e \<and> averageRating e \<le> 5"
    and "\<forall>x \<in> set (aiResolutions (snd (generate_resolution_POST ollama random toString now s
                                           issueIdOpt))).
           \<forall>u. userRating x = Some u \<longrightarrow> 1 \<le> u \<and> u \<le> 5"
proof -
  from generate_resolution_POST_usage_only [of ollama random toString now s issueIdOpt]
  have a: "length (knowledgeBase (snd (generate_resolution_POST ollama random toString now s
                                         issueIdOpt))) = length (knowledgeBase s)"
    and b: "\<forall>i<length (knowledgeBase s).
         knowledgeBase (snd (generate_resolution_POST ollama random toString now s issueIdOpt)) ! i
           = knowledgeBase s ! i
         \<or> knowledgeBase (snd (generate_resolution_POST ollama random toString now s issueIdOpt)) ! i
           = (knowledgeBase s ! i)\<lparr>usageCount := usageCount (knowledgeBase s ! i) + 1\<rparr>"
    by blast+
  show "\<forall>e \<in> set (knowledgeBase (snd (generate_resolution_POST ollama random toString now s
                                           issueIdOpt))).
           1 \<le> averageRating e \<and> averageRating e \<le> 5"
    by (rule usage_step_range [OF a b k])
  from generate_resolution_POST_resolutions [of ollama random toString now s issueIdOpt] u
  show "\<forall>x \<in> set (aiResolutions (snd (generate_resolution_POST ollama random toString now s
                                           issueIdOpt))).
           \<forall>u. userRating x = Some u \<longrightarrow> 1 \<le> u \<and> u \<le> 5"
    by auto
qed

lemma set_ratedResolutions: "set (ratedResolutions s iid) \<subseteq> set (aiResolutions s)"
  by (auto simp: ratedResolutions_def set_stableSortBy)

lemma generate_sop_POST_knowledgeBase:
  "knowledgeBase (snd (generate_sop_POST ollama now s issueIdOpt)) = knowledgeBase s
   \<or> (\<exists>t u b. b \<in> set (aiResolutions s) \<and> userRating b = Some u \<and>
         knowledgeBase (snd (generate_sop_POST ollama now s issueIdOpt)) =
           knowledgeBase s @
             [\<lparr>content = t, contentType = ''sop'', averageRating = of_int u, usageCount = 1\<rparr>])"
proof (cases issueIdOpt)
  case None
  then show ?thesis by (simp add: generate_sop_POST_def)
next
  case (Some iid)
  show ?thesis
  proof (cases "take 1 (ratedResolutions s iid)")
    case Nil
    with Some show ?thesis by (simp add: generate_sop_POST_def)
  next
    case (Cons b bs)
    then have "b \<in> set (take 1 (ratedResolutions s iid))" by simp
    then have b: "b \<in> set (aiResolutions s)"
      using set_ratedResolutions [of s iid] by (blast dest: in_set_takeD)
    with Some Cons show ?thesis
      by (auto simp: generate_sop_POST_def Let_def split: option.splits jsvalue.splits)
  qed
qed

lemma generate_sop_POST_range:
  assumes k: "\<forall>e \<in> set (knowledgeBase s). 1 \<le> averageRating e \<and> averageRating e \<le> 5"
    and u: "\<forall>x \<in> set (aiResolutions s). \<forall>u. userRating x = Some u \<longrightarrow> 1 \<le> u \<and> u \<le> 5"
  shows "\<forall>e \<in> set (knowledgeBase (snd (generate_sop_POST ollama now s issueIdOpt))).
           1 \<le> averageRating e \<and> averageRating e \<le> 5"
    and "aiResolutions (snd (generate_sop_POST ollama now s issueIdOpt)) = aiResolutions s"
proof -
  from generate_sop_POST_knowledgeBase [of ollama now s issueIdOpt]
  show "\<forall>e \<in> set (knowledgeBase (snd (generate_sop_POST ollama now s issueIdOpt))).
           1 \<le> averageRating e \<and> averageRating e \<le> 5"
  proof (elim disjE exE conjE)
    assume "knowledgeBase (snd (generate_sop_POST ollama now s issueIdOpt)) = knowledgeBase s"
    with k show ?thesis by simp
  next
    fix t v b
    assume b: "b \<in> set (aiResolutions s)" "userRating b = Some v"
      and e: "knowledgeBase (snd (generate_sop_POST ollama now s issueIdOpt)) =
           knowledgeBase s @
             [\<lparr>content = t, contentType = ''sop'', averageRating = of_int v, usageCount = 1\<rparr>]"
    from u b have "1 \<le> v" "v \<le> 5" by blast+
    then have "(1::rat) \<le> of_int v" "(of_int v :: rat) \<le> 5" by simp_all
    with k show ?thesis unfolding e by simp
  qed
  show "aiResolutions (snd (generate_sop_POST ollama now s issueIdOpt)) = aiResolutions s"
    by (auto simp: generate_sop_POST_def Let_def
             split: option.splits list.splits jsvalue.splits)
qed

lemma handle_range:
  assumes k: "\<forall>e \<in> set (knowledgeBase s). 1 \<le> averageRating e \<and> averageRating e \<le> 5"
    and u: "\<forall>x \<in> set (aiResolutions s). \<forall>u. userRating x = Some u \<longrightarrow> 1 \<le> u \<and> u \<le> 5"
  shows "(\<forall>e \<in> set (knowledgeBase (handle toString s q)).
            1 \<le> averageRating e \<and> averageRating e \<le> 5)
       \<and> (\<forall>x \<in> set (aiResolutions (handle toString s q)).
            \<forall>u. userRating x = Some u \<longrightarrow> 1 \<le> u \<and> u \<le> 5)"
proof (cases q)
  case (Retrieve query cto lo)
  from retrieve_POST_range [OF k, of query cto lo] u show ?thesis
    unfolding Retrieve handle.simps by (simp only: simp_thms)
next
  case (Rate resolutionId r fb)
  from rate_POST_range [OF k u, of resolutionId r fb] show ?thesis
    unfolding Rate handle.simps by (rule conjI)
next
  case (GenerateResolution ollama random now issueIdOpt)
  from generate_resolution_POST_range [OF k u, of ollama random toString now issueIdOpt]
  show ?thesis
    unfolding GenerateResolution handle.simps by (rule conjI)
next
  case (GenerateSop ollama now issueIdOpt)
  from generate_sop_POST_range [OF k u, of ollama now issueIdOpt] u show ?thesis
    unfolding GenerateSop handle.simps by (simp only: simp_thms)
qed

lemma run_range:
  assumes "\<forall>e \<in> set (knowledgeBase s). 1 \<le> averageRating e \<and> averageRating e \<le> 5"
    and "\<forall>x \<in> set (aiResolutions s). \<forall>u. userRating x = Some u \<longrightarrow> 1 \<le> u \<and> u \<le> 5"
  shows "(\<forall>e \<in> set (knowledgeBase (run toString s requests)).
            1 \<le> averageRating e \<and> averageRating e \<le> 5)
       \<and> (\<forall>x \<in> set (aiResolutions (run toString s requests)).
            \<forall>u. userRating x = Some u \<longrightarrow> 1 \<le> u \<and> u \<le> 5)"
  using assms
proof (induction requests arbitrary: s)
  case Nil
  then show ?case by (simp add: run_def)
next
  case (Cons q requests)
  from handle_range [OF Cons.prems, of toString q]
  have "\<forall>e \<in> set (knowledgeBase (handle toString s q)).
            1 \<le> averageRating e \<and> averageRating e \<le> 5"
    and "\<forall>x \<in> set (aiResolutions (handle toString s q)).
            \<forall>u. userRating x = Some u \<longrightarrow> 1 \<le> u \<and> u \<le> 5"
    by blast+
  from Cons.IH [OF this] show ?case by (simp add: run_def)
qed

text \<open>A rating of 4, a retrieval that returns the new entry, a rating of 5: the average is
  \<open>(4 * 2 + 5) / 3\<close>, not the mean of 4 and 5, because the retrieval has raised the usage count
  that weighs the old average.\<close>

theorem usage_weight_counterexample:
  "knowledgeBase (run (\<lambda>x. ''4'') (exampleDb\<lparr>knowledgeBase := []\<rparr>)
      [Rate 0 4 None, Retrieve ''database connection'' None None, Rate 0 5 None]) =
     [exampleEntry\<lparr>averageRating := 13 / 3, usageCount := 3\<rparr>]
   \<and> (13 / 3 :: rat) \<noteq> (4 + 5) / 2"
  by code_simp

text \<open>
  C3 (amended). From a store whose averages lie in \<open>[1, 5]\<close> and whose resolution ratings lie
  in 1 to 5, every sequence of requests (retrieval, rating, resolution generation, SOP
  generation, in any order) leads to a store whose averages lie in \<open>[1, 5]\<close>. Nothing is said
  about the average being a mean.
\<close>

theorem average_rating_stays_in_range:
  assumes "\<forall>e \<in> set (knowledgeBase s). 1 \<le> averageRating e \<and> averageRating e \<le> 5"
    and "\<forall>x \<in> set (aiResolutions s). \<forall>u. userRating x = Some u \<longrightarrow> 1 \<le> u \<and> u \<le> 5"
  shows "\<forall>e \<in> set (knowledgeBase (run toString s requests)).
           1 \<le> averageRating e \<and> averageRating e \<le> 5"
  using run_range [OF assms, of toString requests] by (rule conjunct1)

text \<open>The example store with an SOP entry as its knowledge base and the three requests above:
  the new entry has usage count 3 and an average in range.\<close>

theorem average_rating_stays_in_range_witness:
  "knowledgeBase (exampleDb\<lparr>knowledgeBase := [exampleSopEntry]\<rparr>) = [exampleSopEntry]
   \<and> averageRating exampleSopEntry = 4
   \<and> map userRating (aiResolutions (exampleDb\<lparr>knowledgeBase := [exampleSopEntry]\<rparr>)) = [Some 4]
   \<and> map usageCount
        (knowledgeBase (run (\<lambda>x. ''4'') (exampleDb\<lparr>knowledgeBase := [exampleSopEntry]\<rparr>)
           [Rate 0 4 None, Retrieve ''database connection'' None None, Rate 0 5 None])) = [1, 3]
   \<and> 1 \<le> averageRating
          (knowledgeBase (run (\<lambda>x. ''4'') (exampleDb\<lparr>knowledgeBase := [exampleSopEntry]\<rparr>)
             [Rate 0 4 None, Retrieve ''database connection'' None None, Rate 0 5 None]) ! 1)
   \<and> averageRating
          (knowledgeBase (run (\<lambda>x. ''4'') (exampleDb\<lparr>knowledgeBase := [exampleSopEntry]\<rparr>)
             [Rate 0 4 None, Retrieve ''database connection'' None None, Rate 0 5 None]) ! 1) \<le> 5"
proof -
  let ?s = "exampleDb\<lparr>knowledgeBase := [exampleSopEntry]\<rparr>"
  let ?requests = "[Rate 0 4 None, Retrieve ''database connection'' None None, Rate 0 5 None]"
  have k: "\<forall>e \<in> set (knowledgeBase ?s). 1 \<le> averageRating e \<and> averageRating e \<le> 5"
    by (simp add: exampleSopEntry_def)
  have u: "\<forall>x \<in> set (aiResolutions ?s). \<forall>u. userRating x = Some u \<longrightarrow> 1 \<le> u \<and> u \<le> 5"
    by (simp add: exampleDb_def exampleResolution_def)
  have e1: "map usageCount (knowledgeBase (run (\<lambda>x. ''4'') ?s ?requests)) = [1, 3]"
    by code_simp
  then have "length (knowledgeBase (run (\<lambda>x. ''4'') ?s ?requests)) = 2"
    by (metis length_map length_Cons list.size(3) numeral_2_eq_2)
  then have m: "knowledgeBase (run (\<lambda>x. ''4'') ?s ?requests) ! 1
               \<in> set (knowledgeBase (run (\<lambda>x. ''4'') ?s ?requests))"
    by simp
  have e3: "map userRating (aiResolutions ?s) = [Some 4]"
    by (simp add: exampleDb_def exampleResolution_def)
  from average_rating_stays_in_range [OF k u, of "\<lambda>x. ''4''" ?requests] m
  have "1 \<le> averageRating (knowledgeBase (run (\<lambda>x. ''4'') ?s ?requests) ! 1)
      \<and> averageRating (knowledgeBase (run (\<lambda>x. ''4'') ?s ?requests) ! 1) \<le> 5"
    by blast
  with e1 e3 show ?thesis by (simp add: exampleSopEntry_def)
qed

end
